theory Spec2Isabelle
  imports Complex_Main "HOL-Library.Multiset"
begin

section \<open>Python numerics and the random source\<close>

text \<open>
  Python floats are modelled as real numbers and Python's unbounded integers as \<open>int\<close>.
  \<open>int(x)\<close> on a float truncates towards zero.  Python's \<open>//\<close> and \<open>%\<close> on
  integers are floor division and floor modulus, which is what \<open>div\<close> and \<open>mod\<close> on
  \<open>int\<close> are.
\<close>

definition py_int :: "real \<Rightarrow> int" where
  "py_int x = (if 0 \<le> x then \<lfloor>x\<rfloor> else \<lceil>x\<rceil>)"

datatype py_error = ZeroDivisionError | IndexError | ValueError | KeyError | TypeError

text \<open>
  The module-level generator of \<open>random\<close> is a sequence of draws from \<open>[0, 1)\<close>
  together with the position of the next draw.  \<open>random.random()\<close> takes one draw;
  \<open>random.uniform(a, b)\<close> is \<open>a + (b - a) * random()\<close>.
\<close>

type_synonym draws = "nat \<Rightarrow> real"

definition unit_draws :: "draws \<Rightarrow> bool" where
  "unit_draws d \<longleftrightarrow> (\<forall>i. 0 \<le> d i \<and> d i < 1)"

definition random :: "draws \<Rightarrow> nat \<Rightarrow> real \<times> nat" where
  "random d p = (d p, Suc p)"

definition uniform :: "real \<Rightarrow> real \<Rightarrow> draws \<Rightarrow> nat \<Rightarrow> real \<times> nat" where
  "uniform a b d p = (a + (b - a) * d p, Suc p)"

section \<open>Configuration\<close>

text \<open>
  The fields of the configuration dictionary that the engine reads.  The start date
  enters the orchestrator as the epoch time of its local midnight (\<open>start_ms\<close> below),
  and the generator object keeps its own \<open>target_gbps\<close> beside the configuration, so
  the target is a parameter of \<open>generate\<close>.
\<close>

record region_info =
  weight :: real
  country :: string
  region :: string

record config =
  target_bandwidth_gbps :: real
  duration_days :: int
  interval_seconds :: int
  burst_probability :: real
  cache_hit_rate :: "real \<times> real"
  avg_object_size_kb :: "real \<times> real"
  origin_fail_rate :: "real \<times> real"
  anomaly_probability :: real
  tenant_id :: string
  domains :: "string list"
  regions :: "region_info list"

section \<open>MetricsDerivator.derive\<close>

record metrics =
  bw :: int
  flux :: int
  bs_bw :: int
  bs_flux :: int
  req_num :: int
  hit_num :: int
  bs_num :: int
  bs_fail_num :: int
  hit_flux :: int
  http_code_2xx :: int
  http_code_3xx :: int
  http_code_4xx :: int
  http_code_5xx :: int
  bs_http_code_2xx :: int
  bs_http_code_3xx :: int
  bs_http_code_4xx :: int
  bs_http_code_5xx :: int

text \<open>
  The origin-side status histogram: three more draws when \<open>bs_num > 0\<close>, none otherwise.
  The result is \<open>(2xx, 3xx, 4xx, 5xx)\<close> and the next position.
\<close>

definition bs_histogram :: "draws \<Rightarrow> int \<Rightarrow> nat \<Rightarrow> (int \<times> int \<times> int \<times> int) \<times> nat" where
  "bs_histogram d n p =
     (if n > 0 then
        (let (r2, p1) = uniform 0.85 0.95 d p;
             b2 = py_int (real_of_int n * r2);
             (r4, p2) = uniform 0.02 0.08 d p1;
             b4 = py_int (real_of_int n * r4);
             (r3, p3) = uniform 0.01 0.05 d p2;
             b3 = py_int (real_of_int n * r3);
             b5 = max 0 (n - b2 - b4 - b3)
         in ((b2, b3, b4, b5), p3))
      else ((0, 0, 0, 0), p))"

definition derive :: "config \<Rightarrow> draws \<Rightarrow> real \<Rightarrow> int \<Rightarrow> nat \<Rightarrow> py_error + (metrics \<times> nat)" where
  "derive cfg d bandwidth_gbps interval p =
     (let flux_bytes = py_int (bandwidth_gbps * 1024 * 1024 * 1024 * real_of_int interval / 8);
          (hit_rate, p1) = uniform (fst (cache_hit_rate cfg)) (snd (cache_hit_rate cfg)) d p;
          bs_flux_bytes = py_int (real_of_int flux_bytes * (1 - hit_rate));
          hit_flux_bytes = flux_bytes - bs_flux_bytes;
          (avg_obj_size, p2) = uniform (fst (avg_object_size_kb cfg) * 1024)
                                       (snd (avg_object_size_kb cfg) * 1024) d p1
      in if avg_obj_size = 0 then Inl ZeroDivisionError
         else
          (let req = max 1 (py_int (real_of_int flux_bytes / avg_obj_size));
               hit = py_int (real_of_int req * hit_rate);
               bs = req - hit;
               (bs_fail_rate, p3) = uniform (fst (origin_fail_rate cfg)) (snd (origin_fail_rate cfg)) d p2;
               bs_fail = max 0 (py_int (real_of_int bs * bs_fail_rate));
               (r2, p4) = uniform 0.75 0.90 d p3;
               http_2xx = py_int (real_of_int req * r2);
               (r4, p5) = uniform 0.05 0.15 d p4;
               http_4xx = py_int (real_of_int req * r4);
               (r3, p6) = uniform 0.02 0.08 d p5;
               http_3xx = py_int (real_of_int req * r3);
               http_5xx = max 0 (req - http_2xx - http_4xx - http_3xx);
               ((b2, b3, b4, b5), p7) = bs_histogram d bs p6;
               bw_mbps = py_int (bandwidth_gbps * 1024)
           in if interval = 0 then Inl ZeroDivisionError
              else Inr (\<lparr> bw = bw_mbps, flux = flux_bytes,
                          bs_bw = py_int (real_of_int bs_flux_bytes * 8 / real_of_int interval / 1024 / 1024),
                          bs_flux = bs_flux_bytes, req_num = req, hit_num = hit, bs_num = bs,
                          bs_fail_num = bs_fail, hit_flux = hit_flux_bytes,
                          http_code_2xx = http_2xx, http_code_3xx = http_3xx,
                          http_code_4xx = http_4xx, http_code_5xx = http_5xx,
                          bs_http_code_2xx = b2, bs_http_code_3xx = b3,
                          bs_http_code_4xx = b4, bs_http_code_5xx = b5 \<rparr>, p7)))"

section \<open>AnomalyInjector.inject\<close>

text \<open>
  \<open>datetime.fromtimestamp(timestamp_ms / 1000).hour\<close> is the hour of the local wall
  clock; the offset of the local time zone from UTC, in seconds, is a parameter.
\<close>

definition local_hour :: "int \<Rightarrow> int \<Rightarrow> int" where
  "local_hour utc_offset timestamp_ms = ((timestamp_ms div 1000 + utc_offset) div 3600) mod 24"

definition maintenance_window :: "draws \<Rightarrow> int \<Rightarrow> metrics \<times> nat \<Rightarrow> metrics \<times> nat" where
  "maintenance_window d hour mp =
     (let (m, p) = mp in
      if hour \<in> {2, 3, 4} then
        (let (u, p1) = random d p in
         if u < 0.05 then
           (let (r, p2) = uniform 0.05 0.15 d p1;
                spike_5xx = py_int (real_of_int (req_num m) * r)
            in (m\<lparr> http_code_5xx := spike_5xx,
                    http_code_2xx := max 0 (http_code_2xx m - spike_5xx) \<rparr>, p2))
         else (m, p1))
      else (m, p))"

definition origin_outage :: "config \<Rightarrow> draws \<Rightarrow> metrics \<times> nat \<Rightarrow> metrics \<times> nat" where
  "origin_outage cfg d mp =
     (let (m, p) = mp; (u, p1) = random d p in
      if u < anomaly_probability cfg then
        (let (fail_rate, p2) = uniform 0.3 0.8 d p1;
             fail = py_int (real_of_int (bs_num m) * fail_rate)
         in (m\<lparr> bs_fail_num := fail, bs_http_code_5xx := fail,
                 bs_http_code_2xx := max 0 (bs_num m - fail) \<rparr>, p2))
      else (m, p1))"

definition cache_purge :: "draws \<Rightarrow> metrics \<times> nat \<Rightarrow> metrics \<times> nat" where
  "cache_purge d mp =
     (let (m, p) = mp; (u, p1) = random d p in
      if u < 0.01 then
        (let (new_hit_rate, p2) = uniform 0.5 0.7 d p1;
             hit = py_int (real_of_int (req_num m) * new_hit_rate);
             hflux = py_int (real_of_int (flux m) * new_hit_rate)
         in (m\<lparr> hit_num := hit, bs_num := req_num m - hit,
                 hit_flux := hflux, bs_flux := flux m - hflux \<rparr>, p2))
      else (m, p1))"

definition ddos :: "draws \<Rightarrow> metrics \<times> nat \<Rightarrow> metrics \<times> nat" where
  "ddos d mp =
     (let (m, p) = mp; (u, p1) = random d p in
      if u < 0.005 then
        (let (r, p2) = uniform 0.2 0.4 d p1;
             spike_4xx = py_int (real_of_int (req_num m) * r)
         in (m\<lparr> http_code_4xx := spike_4xx,
                 http_code_2xx := max 0 (http_code_2xx m - spike_4xx) \<rparr>, p2))
      else (m, p1))"

definition inject :: "config \<Rightarrow> int \<Rightarrow> draws \<Rightarrow> metrics \<Rightarrow> int \<Rightarrow> nat \<Rightarrow> metrics \<times> nat" where
  "inject cfg utc_offset d m timestamp_ms p =
     ddos d (cache_purge d (origin_outage cfg d
       (maintenance_window d (local_hour utc_offset timestamp_ms) (m, p))))"

section \<open>Lists and indices as Python has them\<close>

text \<open>
  \<open>xs[i]\<close>: an index from \<open>-len(xs)\<close> to \<open>len(xs) - 1\<close> selects an element, negative
  ones counting from the end; any other index raises \<open>IndexError\<close>.
\<close>

definition py_index :: "'a list \<Rightarrow> int \<Rightarrow> py_error + 'a" where
  "py_index xs i =
     (if 0 \<le> i \<and> i < int (length xs) then Inr (xs ! nat i)
      else if i < 0 \<and> - int (length xs) \<le> i then Inr (xs ! nat (int (length xs) + i))
      else Inl IndexError)"

definition err_bind :: "py_error + 'a \<Rightarrow> ('a \<Rightarrow> py_error + 'b) \<Rightarrow> py_error + 'b" where
  "err_bind r f = (case r of Inl e \<Rightarrow> Inl e | Inr v \<Rightarrow> f v)"

section \<open>Percentile95Validator.calculate_p95\<close>

record top5 =
  top_count :: int
  top_min :: real
  top_max :: real
  top_avg :: real

record stats =
  total_points :: int
  min_value :: real
  max_value :: real
  avg :: real
  p50 :: real
  p95 :: real
  p99 :: real
  top_5_percent :: top5

text \<open>
  The function returns a dictionary in both cases: \<open>{"error": ...}\<close> for an empty
  list (\<open>ErrorDict\<close>), the statistics otherwise.
\<close>

datatype calc_result = ErrorDict | Stats stats

definition calculate_p95 :: "real list \<Rightarrow> py_error + calc_result" where
  "calculate_p95 values =
     (if values = [] then Inr ErrorDict
      else
        (let sorted_values = sort values;
             total = int (length sorted_values);
             p50_index = total div 2;
             p95_index = py_int (real_of_int total * 0.95);
             p99_index = py_int (real_of_int total * 0.99)
         in err_bind (py_index sorted_values 0) (\<lambda>v_min.
            err_bind (py_index sorted_values (- 1)) (\<lambda>v_max.
            err_bind (py_index sorted_values p50_index) (\<lambda>v_p50.
            err_bind (py_index sorted_values p95_index) (\<lambda>v_p95.
            err_bind (py_index sorted_values p99_index) (\<lambda>v_p99.
              if total - p95_index = 0 then Inl ZeroDivisionError
              else Inr (Stats \<lparr> total_points = total, min_value = v_min, max_value = v_max,
                     avg = sum_list sorted_values / real_of_int total,
                     p50 = v_p50, p95 = v_p95, p99 = v_p99,
                     top_5_percent = \<lparr> top_count = total - p95_index, top_min = v_p95,
                       top_max = v_max,
                       top_avg = sum_list (drop (nat p95_index) sorted_values)
                                 / real_of_int (total - p95_index) \<rparr> \<rparr>))))))))"

section \<open>The daily percentile of the calibration pass\<close>

definition calc_daily_p95 :: "real list \<Rightarrow> py_error + real" where
  "calc_daily_p95 day_curve =
     (let sorted_bw = sort day_curve;
          n = int (length sorted_bw);
          idx = py_int (real_of_int n * 0.95) - 1;
          idx1 = (if idx < 0 then 0 else idx);
          idx2 = (if idx1 \<ge> n then n - 1 else idx1)
      in py_index sorted_bw idx2)"

section \<open>BandwidthCurveGenerator\<close>

text \<open>
  One pass of the loop of \<open>generate\<close>: the sample of index \<open>i\<close>.  It takes the noise
  draw, the burst draw and, when the burst fires, the draw of the burst factor.
\<close>

definition sample_point ::
  "config \<Rightarrow> real \<Rightarrow> int \<Rightarrow> int \<Rightarrow> draws \<Rightarrow> int \<Rightarrow> nat \<Rightarrow> real \<times> nat" where
  "sample_point cfg target_gbps days interval d i p =
     (let minute_of_month = i * (interval div 60);
          hour_of_day = (minute_of_month div 60) mod 24;
          day_of_week = (minute_of_month div 1440) mod 7;
          day_of_month = minute_of_month div 1440;
          daily_factor = 0.6 + 0.7 * (0.5 + 0.5 * sin (real_of_int (hour_of_day - 6) * pi / 12));
          weekly_factor = (if day_of_week \<in> {5, 6} then 0.85 else 1.0);
          monthly_factor = (if day_of_month < 3 \<or> day_of_month \<ge> days - 3 then 1.15 else 1.0);
          (noise_factor, p1) = uniform 0.92 1.08 d p;
          (u, p2) = random d p1;
          (burst_factor, p3) =
             (if u < burst_probability cfg then uniform 2.0 3.0 d p2 else (1.0, p2));
          bw = target_gbps * daily_factor * weekly_factor * monthly_factor
                 * noise_factor * burst_factor
      in (max 0.1 bw, p3))"

fun sample_points ::
  "config \<Rightarrow> real \<Rightarrow> int \<Rightarrow> int \<Rightarrow> draws \<Rightarrow> int list \<Rightarrow> nat \<Rightarrow> real list \<times> nat" where
  "sample_points cfg target_gbps days interval d [] p = ([], p)"
| "sample_points cfg target_gbps days interval d (i # rest) p =
     (let (bw, p1) = sample_point cfg target_gbps days interval d i p;
          (curve, p2) = sample_points cfg target_gbps days interval d rest p1
      in (bw # curve, p2))"

text \<open>
  \<open>curve[day_start:day_start + points_per_day]\<close> for \<open>day_start\<close> in
  \<open>range(0, len(curve), points_per_day)\<close>, for a positive step.
\<close>

definition daily_windows :: "nat \<Rightarrow> real list \<Rightarrow> real list list" where
  "daily_windows points_per_day curve =
     map (\<lambda>k. take points_per_day (drop (k * points_per_day) curve))
       [0..<(length curve + points_per_day - 1) div points_per_day]"

fun collect :: "(py_error + 'a) list \<Rightarrow> py_error + 'a list" where
  "collect [] = Inr []"
| "collect (r # rs) = err_bind r (\<lambda>v. err_bind (collect rs) (\<lambda>vs. Inr (v # vs)))"

text \<open>
  The first loop of \<open>_adjust_to_target\<close>: the p95 of every day that has at least half a
  day of points.  \<open>range\<close> raises \<open>ValueError\<close> for a step of zero and is empty for a
  negative step.
\<close>

definition daily_p95_list :: "config \<Rightarrow> real list \<Rightarrow> py_error + real list" where
  "daily_p95_list cfg curve =
     (if interval_seconds cfg div 60 = 0 then Inl ZeroDivisionError
      else
        (let points_per_day = 24 * 60 div (interval_seconds cfg div 60)
         in if points_per_day = 0 then Inl ValueError
            else if points_per_day < 0 then Inr []
            else collect (map calc_daily_p95
                   (filter (\<lambda>day_curve. real (length day_curve) \<ge> real_of_int points_per_day * 0.5)
                      (daily_windows (nat points_per_day) curve)))))"

definition adjust_to_target :: "config \<Rightarrow> real \<Rightarrow> real list \<Rightarrow> py_error + real list" where
  "adjust_to_target cfg target_gbps curve =
     err_bind (daily_p95_list cfg curve) (\<lambda>p95s.
     err_bind (if p95s \<noteq> [] then Inr (sum_list p95s / real (length p95s))
               else if curve = [] then Inl ValueError
               else Inr (Max (set curve))) (\<lambda>avg_daily_p95.
       if target_gbps = 0 then Inl ZeroDivisionError
       else if \<bar>avg_daily_p95 - target_gbps\<bar> / target_gbps > 0.02 then
         (if avg_daily_p95 = 0 then Inl ZeroDivisionError
          else Inr (map (\<lambda>bw. bw * (target_gbps / avg_daily_p95)) curve))
       else Inr curve))"

definition generate ::
  "config \<Rightarrow> real \<Rightarrow> draws \<Rightarrow> int \<Rightarrow> int \<Rightarrow> nat \<Rightarrow> py_error + (real list \<times> nat)" where
  "generate cfg target_gbps d days interval p =
     (if interval div 60 = 0 then Inl ZeroDivisionError
      else
        (let total_points = days * 24 * 60 div (interval div 60);
             (curve, p1) = sample_points cfg target_gbps days interval d [0..total_points - 1] p
         in err_bind (adjust_to_target cfg target_gbps curve) (\<lambda>adjusted. Inr (adjusted, p1))))"

text \<open>
  The quantity the guard of \<open>_adjust_to_target\<close> compares with 0.02:
  \<open>abs(avg_daily_p95 - target_gbps) / target_gbps\<close> for the mean of a list of daily p95
  values.
\<close>

definition p95_deviation :: "real \<Rightarrow> real list \<Rightarrow> real" where
  "p95_deviation target_gbps p95s = \<bar>sum_list p95s / real (length p95s) - target_gbps\<bar> / target_gbps"

section \<open>The summary of CDNLogGenerator.generate_full_month\<close>

record summary =
  curve_total_points :: int
  p50_gbps :: real
  p95_gbps :: real
  p99_gbps :: real
  max_gbps :: real
  min_gbps :: real
  avg_gbps :: real
  total_flux_tb :: real

definition summary_stats :: "real list \<Rightarrow> int \<Rightarrow> py_error + summary" where
  "summary_stats bandwidth_curve interval =
     (let sorted_bw = sort bandwidth_curve;
          n = int (length sorted_bw);
          p95_index = py_int (real_of_int n * 0.95)
      in err_bind (py_index sorted_bw (n div 2)) (\<lambda>v_p50.
         err_bind (py_index sorted_bw p95_index) (\<lambda>v_p95.
         err_bind (py_index sorted_bw (py_int (real_of_int n * 0.99))) (\<lambda>v_p99.
         err_bind (py_index sorted_bw (- 1)) (\<lambda>v_max.
         err_bind (py_index sorted_bw 0) (\<lambda>v_min.
           if n = 0 then Inl ZeroDivisionError
           else Inr \<lparr> curve_total_points = n, p50_gbps = v_p50, p95_gbps = v_p95,
                  p99_gbps = v_p99, max_gbps = v_max, min_gbps = v_min,
                  avg_gbps = sum_list bandwidth_curve / real_of_int n,
                  total_flux_tb = sum_list bandwidth_curve * real_of_int interval / 8 / 1024 \<rparr>))))))"

section \<open>MultiDimensionDistributor.distribute\<close>

text \<open>
  The distributor receives the record as a dictionary and looks at the type of each
  value, so the record is a map from keys to tagged values here.  A later key of a
  dictionary display overrides an earlier one, which is \<open>++\<close> on maps.
\<close>

datatype pyval = IntV int | FloatV real | StrV string

type_synonym pydict = "string \<rightharpoonup> pyval"

definition metrics_items :: "metrics \<Rightarrow> pydict" where
  "metrics_items m =
     [''bw'' \<mapsto> IntV (bw m), ''flux'' \<mapsto> IntV (flux m), ''bs_bw'' \<mapsto> IntV (bs_bw m),
      ''bs_flux'' \<mapsto> IntV (bs_flux m), ''req_num'' \<mapsto> IntV (req_num m),
      ''hit_num'' \<mapsto> IntV (hit_num m), ''bs_num'' \<mapsto> IntV (bs_num m),
      ''bs_fail_num'' \<mapsto> IntV (bs_fail_num m), ''hit_flux'' \<mapsto> IntV (hit_flux m),
      ''http_code_2xx'' \<mapsto> IntV (http_code_2xx m), ''http_code_3xx'' \<mapsto> IntV (http_code_3xx m),
      ''http_code_4xx'' \<mapsto> IntV (http_code_4xx m), ''http_code_5xx'' \<mapsto> IntV (http_code_5xx m),
      ''bs_http_code_2xx'' \<mapsto> IntV (bs_http_code_2xx m),
      ''bs_http_code_3xx'' \<mapsto> IntV (bs_http_code_3xx m),
      ''bs_http_code_4xx'' \<mapsto> IntV (bs_http_code_4xx m),
      ''bs_http_code_5xx'' \<mapsto> IntV (bs_http_code_5xx m)]"

text \<open>\<open>int(v * actual_weight) if isinstance(v, int) else v\<close>\<close>

definition scale_value :: "real \<Rightarrow> pyval \<Rightarrow> pyval" where
  "scale_value actual_weight v =
     (case v of IntV n \<Rightarrow> IntV (py_int (real_of_int n * actual_weight)) | _ \<Rightarrow> v)"

text \<open>
  \<open>random.choice(seq)\<close> raises \<open>IndexError\<close> on an empty sequence and otherwise returns
  the element at a uniformly drawn index; the index is taken from one draw \<open>u\<close> as
  \<open>int(u * len(seq))\<close>.
\<close>

definition choice :: "'a list \<Rightarrow> draws \<Rightarrow> nat \<Rightarrow> py_error + ('a \<times> nat)" where
  "choice xs d p =
     (if xs = [] then Inl IndexError
      else Inr (xs ! nat (py_int (d p * real (length xs))), Suc p))"

text \<open>The dictionary display that builds one log entry.\<close>

definition log_entry :: "config \<Rightarrow> pydict \<Rightarrow> int \<Rightarrow> region_info \<Rightarrow> real \<Rightarrow> string \<Rightarrow> pydict" where
  "log_entry cfg global_metrics timestamp_ms region_info actual_weight domain =
     [''tenantId'' \<mapsto> StrV (tenant_id cfg), ''start_time'' \<mapsto> IntV timestamp_ms,
      ''country'' \<mapsto> StrV (country region_info), ''region'' \<mapsto> StrV (region region_info),
      ''domain'' \<mapsto> StrV domain, ''interval'' \<mapsto> IntV (interval_seconds cfg)]
     ++ (\<lambda>k. map_option (scale_value actual_weight) (global_metrics k))"

fun distribute_regions ::
  "config \<Rightarrow> draws \<Rightarrow> pydict \<Rightarrow> int \<Rightarrow> region_info list \<Rightarrow> nat \<Rightarrow> py_error + (pydict list \<times> nat)"
where
  "distribute_regions cfg d global_metrics timestamp_ms [] p = Inr ([], p)"
| "distribute_regions cfg d global_metrics timestamp_ms (region_info # rest) p =
     (let (jitter, p1) = uniform 0.9 1.1 d p;
          actual_weight = weight region_info * jitter
      in err_bind (choice (domains cfg) d p1) (\<lambda>(domain, p2).
         err_bind (distribute_regions cfg d global_metrics timestamp_ms rest p2) (\<lambda>(results, p3).
           Inr (log_entry cfg global_metrics timestamp_ms region_info actual_weight domain
                  # results, p3))))"

definition distribute :: "config \<Rightarrow> draws \<Rightarrow> pydict \<Rightarrow> int \<Rightarrow> nat \<Rightarrow> py_error + (pydict list \<times> nat)" where
  "distribute cfg d global_metrics timestamp_ms p =
     distribute_regions cfg d global_metrics timestamp_ms (regions cfg) p"

text \<open>The six keys the distributor adds to a record.\<close>

definition tag_keys :: "string set" where
  "tag_keys = {''tenantId'', ''start_time'', ''country'', ''region'', ''domain'', ''interval''}"

section \<open>CDNLogGenerator.generate_full_month\<close>

text \<open>
  The loop over the curve: derive, inject, distribute, and append the entries.  The
  timestamp of sample \<open>i\<close> is the start of the window plus \<open>i\<close> intervals;
  \<open>start_ms\<close> is the epoch time, in milliseconds, of local midnight of the start date.
\<close>

fun generate_logs ::
  "config \<Rightarrow> int \<Rightarrow> int \<Rightarrow> draws \<Rightarrow> (int \<times> real) list \<Rightarrow> nat \<Rightarrow> py_error + (pydict list \<times> nat)"
where
  "generate_logs cfg utc_offset start_ms d [] p = Inr ([], p)"
| "generate_logs cfg utc_offset start_ms d ((i, bw_gbps) # rest) p =
     (let timestamp_ms = start_ms + i * interval_seconds cfg * 1000
      in err_bind (derive cfg d bw_gbps (interval_seconds cfg) p) (\<lambda>(m, p1).
         (let (m', p2) = inject cfg utc_offset d m timestamp_ms p1
          in err_bind (distribute cfg d (metrics_items m') timestamp_ms p2) (\<lambda>(logs, p3).
             err_bind (generate_logs cfg utc_offset start_ms d rest p3) (\<lambda>(all_logs, p4).
               Inr (logs @ all_logs, p4))))))"

definition generate_full_month ::
  "config \<Rightarrow> int \<Rightarrow> int \<Rightarrow> draws \<Rightarrow> nat \<Rightarrow> py_error + ((pydict list \<times> summary) \<times> nat)" where
  "generate_full_month cfg utc_offset start_ms d p =
     err_bind (generate cfg (target_bandwidth_gbps cfg) d (duration_days cfg)
                 (interval_seconds cfg) p) (\<lambda>(bandwidth_curve, p1).
     err_bind (summary_stats bandwidth_curve (interval_seconds cfg)) (\<lambda>stats.
     err_bind (generate_logs cfg utc_offset start_ms d
                 (zip (map int [0..<length bandwidth_curve]) bandwidth_curve) p1) (\<lambda>(all_logs, p2).
       Inr ((all_logs, stats), p2))))"

section \<open>Percentile95Validator.validate_logs\<close>

text \<open>\<open>log[k]\<close> as a number, and \<open>log[k]\<close> as a dictionary key.\<close>

definition log_number :: "pydict \<Rightarrow> string \<Rightarrow> py_error + real" where
  "log_number entry k =
     (case entry k of
        None \<Rightarrow> Inl KeyError
      | Some (IntV n) \<Rightarrow> Inr (real_of_int n)
      | Some (FloatV x) \<Rightarrow> Inr x
      | Some (StrV s) \<Rightarrow> Inl TypeError)"

definition log_key :: "pydict \<Rightarrow> string \<Rightarrow> py_error + pyval" where
  "log_key entry k = (case entry k of None \<Rightarrow> Inl KeyError | Some v \<Rightarrow> Inr v)"

text \<open>
  A \<open>defaultdict(list)\<close> filled in one pass: the keys in order of first appearance,
  each with its values in order; then \<open>calculate_p95\<close> for each group.
\<close>

definition grouped :: "(pyval \<times> real) list \<Rightarrow> (pyval \<times> real list) list" where
  "grouped kvs =
     map (\<lambda>k. (k, map snd (filter (\<lambda>kv. fst kv = k) kvs))) (rev (remdups (rev (map fst kvs))))"

definition group_stats :: "(pyval \<times> real) list \<Rightarrow> py_error + (pyval \<times> calc_result) list" where
  "group_stats kvs =
     collect (map (\<lambda>(k, bws). err_bind (calculate_p95 bws) (\<lambda>r. Inr (k, r))) (grouped kvs))"

record validation_result =
  target_gbps :: real
  actual_avg_gbps :: real
  actual_p95_gbps :: real
  deviation_percent :: real
  passed :: bool

record validation_report =
  validation :: validation_result
  overall :: stats
  by_region :: "(pyval \<times> calc_result) list"
  by_domain :: "(pyval \<times> calc_result) list"

definition validate_logs :: "pydict list \<Rightarrow> real \<Rightarrow> py_error + validation_report" where
  "validate_logs logs target =
     err_bind (collect (map (\<lambda>entry. err_bind (log_number entry ''bw'') (\<lambda>b. Inr (b / 1024))) logs))
       (\<lambda>bandwidths.
     err_bind (collect (map (\<lambda>entry. log_key entry ''region'') logs)) (\<lambda>region_keys.
     err_bind (collect (map (\<lambda>entry. log_key entry ''domain'') logs)) (\<lambda>domain_keys.
     err_bind (calculate_p95 bandwidths) (\<lambda>overall_stats.
       case overall_stats of
         ErrorDict \<Rightarrow> Inl KeyError
       | Stats st \<Rightarrow>
           if target = 0 then Inl ZeroDivisionError
           else
             (let actual_avg = avg st;
                  deviation = \<bar>actual_avg - target\<bar> / target * 100
              in err_bind (group_stats (zip region_keys bandwidths)) (\<lambda>region_stats.
                 err_bind (group_stats (zip domain_keys bandwidths)) (\<lambda>domain_stats.
                   Inr \<lparr> validation =
                           \<lparr> target_gbps = target, actual_avg_gbps = actual_avg,
                             actual_p95_gbps = p95 st, deviation_percent = deviation,
                             passed = (deviation < 5.0) \<rparr>,
                         overall = st, by_region = region_stats,
                         by_domain = domain_stats \<rparr>)))))))"

section \<open>Properties of metric records\<close>

definition counts_nonneg :: "metrics \<Rightarrow> bool" where
  "counts_nonneg m \<longleftrightarrow>
     0 \<le> bw m \<and> 0 \<le> flux m \<and> 0 \<le> bs_bw m \<and> 0 \<le> bs_flux m \<and>
     0 \<le> req_num m \<and> 0 \<le> hit_num m \<and> 0 \<le> bs_num m \<and> 0 \<le> bs_fail_num m \<and>
     0 \<le> hit_flux m \<and>
     0 \<le> http_code_2xx m \<and> 0 \<le> http_code_3xx m \<and> 0 \<le> http_code_4xx m \<and>
     0 \<le> http_code_5xx m \<and>
     0 \<le> bs_http_code_2xx m \<and> 0 \<le> bs_http_code_3xx m \<and> 0 \<le> bs_http_code_4xx m \<and>
     0 \<le> bs_http_code_5xx m"

definition bytes_conserved :: "metrics \<Rightarrow> bool" where
  "bytes_conserved m \<longleftrightarrow> hit_flux m + bs_flux m = flux m"

section \<open>Concrete inputs\<close>

definition example_config :: config where
  "example_config = \<lparr> target_bandwidth_gbps = 20, duration_days = 1, interval_seconds = 300,
      burst_probability = 0.05, cache_hit_rate = (0.85, 0.95),
      avg_object_size_kb = (200, 2048), origin_fail_rate = (0.001, 0.01),
      anomaly_probability = 0.001, tenant_id = ''t1'', domains = [''a.example.com''],
      regions = [\<lparr> weight = 1, country = ''CN'', region = ''Beijing'' \<rparr>] \<rparr>"

text \<open>The record \<open>derive\<close> builds for 20 Gbps over 300 s when every draw is \<open>1/2\<close>.\<close>

definition example_record :: metrics where
  "example_record = \<lparr> bw = 20480, flux = 805306368000, bs_bw = 2048, bs_flux = 80530636800,
      req_num = 699672, hit_num = 629704, bs_num = 69968, bs_fail_num = 384,
      hit_flux = 724775731200, http_code_2xx = 577229, http_code_3xx = 34983,
      http_code_4xx = 69967, http_code_5xx = 17493, bs_http_code_2xx = 62971,
      bs_http_code_3xx = 2099, bs_http_code_4xx = 3498, bs_http_code_5xx = 1400 \<rparr>"

text \<open>Reading an integer field of a log entry.\<close>

definition int_field :: "pydict \<Rightarrow> string \<Rightarrow> int" where
  "int_field e k = (case e k of Some (IntV n) \<Rightarrow> n | _ \<Rightarrow> 0)"

definition three_regions :: config where
  "three_regions = example_config \<lparr> regions :=
     [\<lparr> weight = 0.5, country = ''CN'', region = ''Beijing'' \<rparr>,
      \<lparr> weight = 0.3, country = ''CN'', region = ''Shanghai'' \<rparr>,
      \<lparr> weight = 0.2, country = ''US'', region = ''Virginia'' \<rparr>],
     domains := [''a.example.com'', ''b.example.com''] \<rparr>"

text \<open>
  A week at 1000 Gbps with one sample per day, and draws that put the run on the 2% line.
  Every draw is one of \<open>0\<close>, \<open>1/4\<close>, \<open>5/16\<close>, \<open>1/2\<close> and \<open>3/4\<close>, each a multiple of
  \<open>2\<^sup>-\<^sup>5\<^sup>3\<close> in \<open>[0, 1)\<close> and so a value \<open>random.random()\<close> can return.  Positions 0 to 16
  are read: the noise draw and the burst draw of each day, and the burst factor draw of
  days 2, 3 and 4, where the burst draw is 0.
\<close>

definition week_config :: config where
  "week_config = example_config \<lparr> target_bandwidth_gbps := 1000, duration_days := 7,
     interval_seconds := 86400 \<rparr>"

definition week_draws :: draws where
  "week_draws i =
     (if i \<in> {5, 6, 8, 11} then 0
      else if i = 7 then 5 / 16
      else if i = 9 then 1 / 4
      else if i = 12 then 3 / 4
      else 1 / 2)"

text \<open>The seven samples of that run.\<close>

definition week_curve :: "real list" where
  "week_curve = [690, 690, 1380, 1309.5, 1897.5, 586.5, 586.5]"

text \<open>
  Two days at 20 Gbps with a sample every six hours, the eight samples the loop builds
  when every draw is \<open>1/2\<close>, and the curve after the rescale by \<open>20 / 21.85\<close>.
\<close>

definition six_hour_config :: config where
  "six_hour_config = example_config \<lparr> duration_days := 2, interval_seconds := 21600 \<rparr>"

definition six_hour_raw :: "real list" where
  "six_hour_raw = [13.8, 21.85, 29.9, 21.85, 13.8, 21.85, 29.9, 21.85]"

definition six_hour_curve :: "real list" where
  "six_hour_curve = [240 / 19, 20, 520 / 19, 20, 240 / 19, 20, 520 / 19, 20]"

text \<open>A one-day run with one sample, for a target of 50 Mbps.\<close>

definition small_config :: config where
  "small_config = example_config \<lparr> target_bandwidth_gbps := 0.05, interval_seconds := 86400 \<rparr>"

text \<open>
  The sample of index \<open>i\<close> that the loop of \<open>generate\<close> builds for \<open>example_config\<close>
  (20 Gbps, one day, 300 s) when every draw is \<open>1/2\<close>: noise 1, no burst, monthly
  factor 1.15, weekly factor 1.
\<close>

definition steady_sample :: "int \<Rightarrow> real" where
  "steady_sample i = 23 * (0.95 + 0.35 * sin (real_of_int (i div 12 - 6) * pi / 12))"

section \<open>Facts about truncation\<close>

lemma py_int_nonneg: "0 \<le> x \<Longrightarrow> 0 \<le> py_int x"
  by (simp add: py_int_def)

lemma py_int_of_int: "py_int (real_of_int n) = n"
  by (simp add: py_int_def)

lemma py_int_mono: "x \<le> y \<Longrightarrow> py_int x \<le> py_int y"
  unfolding py_int_def
  by (auto intro: floor_mono ceiling_mono)
     (metis ceiling_le_zero floor_mono floor_zero order_trans linear zero_le_floor)

lemma py_int_scale_le:
  assumes "0 \<le> n" "0 \<le> r" "r \<le> 1"
  shows "py_int (real_of_int n * r) \<le> n"
proof -
  have "real_of_int n * r \<le> real_of_int n"
    using assms by (simp add: mult_left_le)
  then have "py_int (real_of_int n * r) \<le> py_int (real_of_int n)"
    by (rule py_int_mono)
  then show ?thesis by (simp add: py_int_of_int)
qed

lemma py_int_scale_nonneg:
  assumes "0 \<le> n" "0 \<le> r"
  shows "0 \<le> py_int (real_of_int n * r)"
  using assms by (simp add: py_int_nonneg)

section \<open>Facts about the random source\<close>

lemma unit_drawsD: "unit_draws d \<Longrightarrow> 0 \<le> d i \<and> d i < 1"
  by (simp add: unit_draws_def)

lemma unit_draws_const: "0 \<le> c \<Longrightarrow> c < 1 \<Longrightarrow> unit_draws (\<lambda>_. c)"
  by (simp add: unit_draws_def)

lemma uniform_bounds:
  assumes "unit_draws d" "a \<le> b"
  shows "a \<le> fst (uniform a b d p) \<and> fst (uniform a b d p) \<le> b"
proof -
  have u: "0 \<le> d p" "d p \<le> 1" using unit_drawsD [OF assms(1), of p] by simp_all
  have "0 \<le> (b - a) * d p" using u assms(2) by simp
  moreover have "(b - a) * d p \<le> (b - a) * 1"
    using u assms(2) by (intro mult_left_mono) simp_all
  ultimately show ?thesis by (simp add: uniform_def)
qed

section \<open>The derived record\<close>

lemma derive_requests:
  "derive cfg d bandwidth_gbps interval p = Inr (m, p') \<Longrightarrow>
     hit_num m + bs_num m = req_num m \<and> 1 \<le> req_num m"
  unfolding derive_def uniform_def
  apply (simp only: Let_def split_conv split: if_splits prod.splits)
  apply auto
  done

lemma derive_bytes:
  "derive cfg d bandwidth_gbps interval p = Inr (m, p') \<Longrightarrow> hit_flux m + bs_flux m = flux m"
  unfolding derive_def uniform_def
  apply (simp only: Let_def split_conv split: if_splits prod.splits)
  apply auto
  done

lemma derive_example:
  "derive example_config (\<lambda>_. 1/2) 20 300 0 = Inr (example_record, 9)"
  by code_simp

text \<open>
  C6.  Whatever the bandwidth, the interval and the draws, a record returned by
  \<open>derive\<close> has \<open>hit_num + bs_num = req_num\<close> and \<open>req_num \<ge> 1\<close>.
\<close>

theorem derive_request_partition:
  assumes "derive cfg d bandwidth_gbps interval p = Inr (m, p')"
  shows "hit_num m + bs_num m = req_num m \<and> 1 \<le> req_num m"
  using derive_requests [OF assms] .

theorem derive_request_partition_witness:
  "derive example_config (\<lambda>_. 1/2) 20 300 0 = Inr (example_record, 9) \<and>
   hit_num example_record + bs_num example_record = req_num example_record \<and>
   1 \<le> req_num example_record"
  using derive_request_partition [OF derive_example] derive_example by simp

section \<open>One perturbation at a time\<close>

lemma maintenance_window_nonneg:
  assumes "unit_draws d" "counts_nonneg m"
  shows "counts_nonneg (fst (maintenance_window d h (m, p)))"
proof -
  have "0 \<le> fst (uniform 0.05 0.15 d (Suc p))"
    using uniform_bounds [OF assms(1), of "0.05" "0.15" "Suc p"] by simp
  then have "0 \<le> py_int (real_of_int (req_num m) * fst (uniform 0.05 0.15 d (Suc p)))"
    using assms(2) by (intro py_int_scale_nonneg) (simp_all add: counts_nonneg_def)
  then show ?thesis
    using assms(2)
    by (simp add: maintenance_window_def random_def Let_def counts_nonneg_def split_beta)
qed

lemma origin_outage_nonneg:
  assumes "unit_draws d" "counts_nonneg m"
  shows "counts_nonneg (fst (origin_outage cfg d (m, p)))"
proof -
  have "0 \<le> fst (uniform 0.3 0.8 d (Suc p))"
    using uniform_bounds [OF assms(1), of "0.3" "0.8" "Suc p"] by simp
  then have "0 \<le> py_int (real_of_int (bs_num m) * fst (uniform 0.3 0.8 d (Suc p)))"
    using assms(2) by (intro py_int_scale_nonneg) (simp_all add: counts_nonneg_def)
  then show ?thesis
    using assms(2)
    by (simp add: origin_outage_def random_def Let_def counts_nonneg_def split_beta)
qed

lemma cache_purge_nonneg:
  assumes "unit_draws d" "counts_nonneg m"
  shows "counts_nonneg (fst (cache_purge d (m, p)))"
proof -
  let ?r = "fst (uniform 0.5 0.7 d (Suc p))"
  have r: "0 \<le> ?r" "?r \<le> 1"
    using uniform_bounds [OF assms(1), of "0.5" "0.7" "Suc p"] by simp_all
  have n: "0 \<le> req_num m" "0 \<le> flux m" using assms(2) by (simp_all add: counts_nonneg_def)
  have "0 \<le> py_int (real_of_int (req_num m) * ?r)"
       "py_int (real_of_int (req_num m) * ?r) \<le> req_num m"
       "0 \<le> py_int (real_of_int (flux m) * ?r)"
       "py_int (real_of_int (flux m) * ?r) \<le> flux m"
    using r n by (simp_all add: py_int_scale_nonneg py_int_scale_le)
  then show ?thesis
    using assms(2)
    by (simp add: cache_purge_def random_def Let_def counts_nonneg_def split_beta)
qed

lemma ddos_nonneg:
  assumes "unit_draws d" "counts_nonneg m"
  shows "counts_nonneg (fst (ddos d (m, p)))"
proof -
  have "0 \<le> fst (uniform 0.2 0.4 d (Suc p))"
    using uniform_bounds [OF assms(1), of "0.2" "0.4" "Suc p"] by simp
  then have "0 \<le> py_int (real_of_int (req_num m) * fst (uniform 0.2 0.4 d (Suc p)))"
    using assms(2) by (intro py_int_scale_nonneg) (simp_all add: counts_nonneg_def)
  then show ?thesis
    using assms(2)
    by (simp add: ddos_def random_def Let_def counts_nonneg_def split_beta)
qed

lemma maintenance_window_bytes:
  "flux (fst (maintenance_window d h (m, p))) = flux m \<and>
   hit_flux (fst (maintenance_window d h (m, p))) = hit_flux m \<and>
   bs_flux (fst (maintenance_window d h (m, p))) = bs_flux m"
  by (simp add: maintenance_window_def random_def uniform_def Let_def)

lemma origin_outage_bytes:
  "flux (fst (origin_outage cfg d (m, p))) = flux m \<and>
   hit_flux (fst (origin_outage cfg d (m, p))) = hit_flux m \<and>
   bs_flux (fst (origin_outage cfg d (m, p))) = bs_flux m"
  by (simp add: origin_outage_def random_def uniform_def Let_def)

lemma cache_purge_bytes:
  "flux (fst (cache_purge d (m, p))) = flux m \<and>
   (bytes_conserved m \<longrightarrow> bytes_conserved (fst (cache_purge d (m, p))))"
  by (simp add: cache_purge_def random_def uniform_def Let_def bytes_conserved_def)

lemma ddos_bytes:
  "flux (fst (ddos d (m, p))) = flux m \<and>
   hit_flux (fst (ddos d (m, p))) = hit_flux m \<and>
   bs_flux (fst (ddos d (m, p))) = bs_flux m"
  by (simp add: ddos_def random_def uniform_def Let_def)

lemma maintenance_window_bs_num:
  "bs_num (fst (maintenance_window d h (m, p))) = bs_num m"
  by (simp add: maintenance_window_def random_def uniform_def Let_def)

lemma cache_purge_outage_fields:
  "bs_fail_num (fst (cache_purge d (m, p))) = bs_fail_num m \<and>
   bs_http_code_5xx (fst (cache_purge d (m, p))) = bs_http_code_5xx m \<and>
   bs_http_code_2xx (fst (cache_purge d (m, p))) = bs_http_code_2xx m"
  by (simp add: cache_purge_def random_def uniform_def Let_def)

lemma ddos_outage_fields:
  "bs_fail_num (fst (ddos d (m, p))) = bs_fail_num m \<and>
   bs_http_code_5xx (fst (ddos d (m, p))) = bs_http_code_5xx m \<and>
   bs_http_code_2xx (fst (ddos d (m, p))) = bs_http_code_2xx m"
  by (simp add: ddos_def random_def uniform_def Let_def)

lemma outage_fail_range:
  assumes "0 \<le> u" "u < 1"
  shows "300 \<le> py_int (1000 * (0.3 + (0.8 - 0.3) * u)) \<and>
         py_int (1000 * (0.3 + (0.8 - 0.3) * u)) \<le> 800"
proof -
  have "300 \<le> 1000 * (0.3 + (0.8 - 0.3) * u)" "1000 * (0.3 + (0.8 - 0.3) * u) \<le> 800"
    using assms by simp_all
  then show ?thesis
    unfolding py_int_def by (simp add: le_floor_iff floor_le_iff)
qed

lemma origin_outage_fired:
  assumes "unit_draws d" "bs_num m = 1000" "d p < anomaly_probability cfg"
  shows "300 \<le> bs_fail_num (fst (origin_outage cfg d (m, p))) \<and>
         bs_fail_num (fst (origin_outage cfg d (m, p))) \<le> 800 \<and>
         bs_http_code_5xx (fst (origin_outage cfg d (m, p)))
           = bs_fail_num (fst (origin_outage cfg d (m, p))) \<and>
         bs_http_code_2xx (fst (origin_outage cfg d (m, p)))
           = max 0 (1000 - bs_fail_num (fst (origin_outage cfg d (m, p))))"
  using outage_fail_range [of "d (Suc p)"] unit_drawsD [OF assms(1), of "Suc p"] assms(2,3)
  by (simp add: origin_outage_def random_def uniform_def Let_def)

section \<open>The four perturbations in sequence\<close>

lemma inject_bytes:
  "flux (fst (inject cfg tz d m ts p)) = flux m \<and>
   (bytes_conserved m \<longrightarrow> bytes_conserved (fst (inject cfg tz d m ts p)))"
proof -
  obtain m1 p1 where s1: "maintenance_window d (local_hour tz ts) (m, p) = (m1, p1)"
    by (cases "maintenance_window d (local_hour tz ts) (m, p)")
  obtain m2 p2 where s2: "origin_outage cfg d (m1, p1) = (m2, p2)"
    by (cases "origin_outage cfg d (m1, p1)")
  obtain m3 p3 where s3: "cache_purge d (m2, p2) = (m3, p3)"
    by (cases "cache_purge d (m2, p2)")
  have 1: "flux m1 = flux m" "hit_flux m1 = hit_flux m" "bs_flux m1 = bs_flux m"
    using maintenance_window_bytes [of d "local_hour tz ts" m p] s1 by simp_all
  have 2: "flux m2 = flux m1" "hit_flux m2 = hit_flux m1" "bs_flux m2 = bs_flux m1"
    using origin_outage_bytes [of cfg d m1 p1] s2 by simp_all
  have 3: "flux m3 = flux m2" "bytes_conserved m2 \<longrightarrow> bytes_conserved m3"
    using cache_purge_bytes [of d m2 p2] s3 by simp_all
  have 4: "flux (fst (ddos d (m3, p3))) = flux m3"
      "hit_flux (fst (ddos d (m3, p3))) = hit_flux m3"
      "bs_flux (fst (ddos d (m3, p3))) = bs_flux m3"
    using ddos_bytes [of d m3 p3] by simp_all
  show ?thesis
    using 1 2 3 4 by (simp add: inject_def s1 s2 s3 bytes_conserved_def)
qed

lemma inject_example:
  "fst (inject example_config 0 (\<lambda>_. 0) example_record 10800000 0) =
     example_record \<lparr> bs_flux := 402653184000, hit_num := 349836, bs_num := 349836,
       bs_fail_num := 20990, hit_flux := 402653184000, http_code_2xx := 402312,
       http_code_4xx := 139934, http_code_5xx := 34983, bs_http_code_2xx := 48978,
       bs_http_code_5xx := 20990 \<rparr>"
  by code_simp

text \<open>
  C7.  On a record with \<open>bs_num = 1000\<close>, when the draw that decides the origin outage
  (the first draw after the maintenance-window step) is below the configured anomaly
  probability, the record returned by \<open>inject\<close> has \<open>bs_fail_num\<close> in \<open>[300, 800]\<close>,
  \<open>bs_http_code_5xx = bs_fail_num\<close> and \<open>bs_http_code_2xx = max(0, bs_num - bs_fail_num)\<close>
  for the record's \<open>bs_num\<close> of 1000.
\<close>

theorem origin_outage_scenario:
  assumes "unit_draws d" and "bs_num m = 1000"
    and "d (snd (maintenance_window d (local_hour tz ts) (m, p))) < anomaly_probability cfg"
  shows "300 \<le> bs_fail_num (fst (inject cfg tz d m ts p)) \<and>
         bs_fail_num (fst (inject cfg tz d m ts p)) \<le> 800 \<and>
         bs_http_code_5xx (fst (inject cfg tz d m ts p))
           = bs_fail_num (fst (inject cfg tz d m ts p)) \<and>
         bs_http_code_2xx (fst (inject cfg tz d m ts p))
           = max 0 (bs_num m - bs_fail_num (fst (inject cfg tz d m ts p)))"
proof -
  obtain m1 p1 where s1: "maintenance_window d (local_hour tz ts) (m, p) = (m1, p1)"
    by (cases "maintenance_window d (local_hour tz ts) (m, p)")
  obtain m2 p2 where s2: "origin_outage cfg d (m1, p1) = (m2, p2)"
    by (cases "origin_outage cfg d (m1, p1)")
  obtain m3 p3 where s3: "cache_purge d (m2, p2) = (m3, p3)"
    by (cases "cache_purge d (m2, p2)")
  have b: "bs_num m1 = 1000"
    using maintenance_window_bs_num [of d "local_hour tz ts" m p] s1 assms(2) by simp
  have f: "d p1 < anomaly_probability cfg" using assms(3) s1 by simp
  have 2: "300 \<le> bs_fail_num m2" "bs_fail_num m2 \<le> 800"
      "bs_http_code_5xx m2 = bs_fail_num m2"
      "bs_http_code_2xx m2 = max 0 (1000 - bs_fail_num m2)"
    using origin_outage_fired [OF assms(1) b f] s2 by simp_all
  have 3: "bs_fail_num m3 = bs_fail_num m2" "bs_http_code_5xx m3 = bs_http_code_5xx m2"
      "bs_http_code_2xx m3 = bs_http_code_2xx m2"
    using cache_purge_outage_fields [of d m2 p2] s3 by simp_all
  have 4: "bs_fail_num (fst (ddos d (m3, p3))) = bs_fail_num m3"
      "bs_http_code_5xx (fst (ddos d (m3, p3))) = bs_http_code_5xx m3"
      "bs_http_code_2xx (fst (ddos d (m3, p3))) = bs_http_code_2xx m3"
    using ddos_outage_fields [of d m3 p3] by simp_all
  show ?thesis
    using 2 3 4 assms(2) by (simp add: inject_def s1 s2 s3)
qed

theorem origin_outage_scenario_witness:
  "unit_draws (\<lambda>_. 0) \<and> bs_num (example_record \<lparr> bs_num := 1000 \<rparr>) = 1000 \<and>
   (\<lambda>_. 0 :: real) (snd (maintenance_window (\<lambda>_. 0) (local_hour 0 10800000)
       (example_record \<lparr> bs_num := 1000 \<rparr>, 0))) < anomaly_probability example_config \<and>
   300 \<le> bs_fail_num (fst (inject example_config 0 (\<lambda>_. 0)
       (example_record \<lparr> bs_num := 1000 \<rparr>) 10800000 0)) \<and>
   bs_fail_num (fst (inject example_config 0 (\<lambda>_. 0)
       (example_record \<lparr> bs_num := 1000 \<rparr>) 10800000 0)) \<le> 800"
proof -
  have u: "unit_draws (\<lambda>_. 0)" by (simp add: unit_draws_def)
  have b: "bs_num (example_record \<lparr> bs_num := 1000 \<rparr>) = 1000" by simp
  have f: "(\<lambda>_. 0 :: real) (snd (maintenance_window (\<lambda>_. 0) (local_hour 0 10800000)
       (example_record \<lparr> bs_num := 1000 \<rparr>, 0))) < anomaly_probability example_config"
    by (simp add: example_config_def)
  show ?thesis
    using u b f origin_outage_scenario [OF u b f] by simp
qed

text \<open>
  C8.  When every count field of the input record is non-negative and the draws lie in
  \<open>[0, 1)\<close>, every count field of the record returned by \<open>inject\<close> is non-negative.
\<close>

theorem inject_counts_nonneg:
  assumes "unit_draws d" "counts_nonneg m"
  shows "counts_nonneg (fst (inject cfg tz d m ts p))"
proof -
  obtain m1 p1 where s1: "maintenance_window d (local_hour tz ts) (m, p) = (m1, p1)"
    by (cases "maintenance_window d (local_hour tz ts) (m, p)")
  obtain m2 p2 where s2: "origin_outage cfg d (m1, p1) = (m2, p2)"
    by (cases "origin_outage cfg d (m1, p1)")
  obtain m3 p3 where s3: "cache_purge d (m2, p2) = (m3, p3)"
    by (cases "cache_purge d (m2, p2)")
  have "counts_nonneg m1"
    using maintenance_window_nonneg [OF assms, of "local_hour tz ts" p] s1 by simp
  then have "counts_nonneg m2"
    using origin_outage_nonneg [OF assms(1), of m1 cfg p1] s2 by simp
  then have "counts_nonneg m3"
    using cache_purge_nonneg [OF assms(1), of m2 p2] s3 by simp
  then have "counts_nonneg (fst (ddos d (m3, p3)))"
    by (rule ddos_nonneg [OF assms(1)])
  then show ?thesis by (simp add: inject_def s1 s2 s3)
qed

theorem inject_counts_nonneg_witness:
  "unit_draws (\<lambda>_. 0) \<and> counts_nonneg example_record \<and>
   counts_nonneg (fst (inject example_config 0 (\<lambda>_. 0) example_record 10800000 0))"
proof -
  have u: "unit_draws (\<lambda>_. 0)" by (simp add: unit_draws_def)
  have c: "counts_nonneg example_record" by (simp add: counts_nonneg_def example_record_def)
  show ?thesis
    using u c inject_counts_nonneg [OF u c] by simp
qed

text \<open>
  C10.  A record returned by \<open>derive\<close> has \<open>hit_flux + bs_flux = flux\<close>, and the record
  \<open>inject\<close> returns for it has the same \<open>flux\<close> and again \<open>hit_flux + bs_flux = flux\<close>,
  whichever perturbations the draws select.
\<close>

theorem byte_conservation:
  assumes "derive cfg d bandwidth_gbps interval p = Inr (m, p1)"
  shows "hit_flux m + bs_flux m = flux m \<and>
         flux (fst (inject cfg tz d m ts p1)) = flux m \<and>
         hit_flux (fst (inject cfg tz d m ts p1)) + bs_flux (fst (inject cfg tz d m ts p1))
           = flux (fst (inject cfg tz d m ts p1))"
  using derive_bytes [OF assms] inject_bytes [of cfg tz d m ts p1]
  by (simp add: bytes_conserved_def)

theorem byte_conservation_witness:
  "derive example_config (\<lambda>_. 1/2) 20 300 0 = Inr (example_record, 9) \<and>
   hit_flux example_record + bs_flux example_record = flux example_record \<and>
   hit_flux (fst (inject example_config 0 (\<lambda>_. 1/2) example_record 10800000 9))
     + bs_flux (fst (inject example_config 0 (\<lambda>_. 1/2) example_record 10800000 9))
     = flux (fst (inject example_config 0 (\<lambda>_. 1/2) example_record 10800000 9))"
  using byte_conservation [OF derive_example] derive_example by simp

section \<open>Percentile indices\<close>

lemma py_int_floor: "0 \<le> x \<Longrightarrow> py_int x = \<lfloor>x\<rfloor>"
  by (simp add: py_int_def)

lemma idx95: "0 < n \<Longrightarrow> 0 \<le> py_int (real_of_int n * 0.95) \<and> py_int (real_of_int n * 0.95) < n"
  unfolding py_int_def by (simp add: floor_less_iff)

lemma idx99: "0 < n \<Longrightarrow> 0 \<le> py_int (real_of_int n * 0.99) \<and> py_int (real_of_int n * 0.99) < n"
  unfolding py_int_def by (simp add: floor_less_iff)

lemma py_index_in_range:
  "0 \<le> i \<Longrightarrow> i < int (length xs) \<Longrightarrow> py_index xs i = Inr (xs ! nat i)"
  by (simp add: py_index_def)

lemma py_index_last: "xs \<noteq> [] \<Longrightarrow> py_index xs (- 1) = Inr (last xs)"
proof -
  assume ne: "xs \<noteq> []"
  then have pos: "Suc 0 \<le> length xs" by (cases xs) simp_all
  then have "nat (int (length xs) + - 1) = length xs - 1" by linarith
  then show ?thesis using ne pos by (simp add: py_index_def last_conv_nth)
qed

lemma calculate_p95_Nil: "calculate_p95 [] = Inr ErrorDict"
  by (simp add: calculate_p95_def)

lemma calculate_p95_nonempty:
  assumes "values \<noteq> []"
  shows "\<exists>s. calculate_p95 values = Inr (Stats s) \<and>
             p95 s = sort values ! nat (py_int (real (length values) * 0.95))"
proof -
  let ?n = "int (length values)"
  have n: "0 < ?n" using assms by simp
  have ne: "sort values \<noteq> []" using assms by (metis length_sort length_0_conv)
  note i95 = idx95 [OF n] and i99 = idx99 [OF n]
  have i50: "0 \<le> ?n div 2" "?n div 2 < ?n" using n by linarith+
  show ?thesis
    using i95 i99 i50 n assms
    by (simp add: calculate_p95_def Let_def err_bind_def py_index_in_range
        py_index_last [OF ne])
qed

lemma calc_daily_p95_nonempty:
  assumes "day_curve \<noteq> []"
  shows "calc_daily_p95 day_curve =
           Inr (sort day_curve ! nat (py_int (real (length day_curve) * 0.95) - 1))"
proof -
  let ?n = "int (length day_curve)"
  have n: "0 < ?n" using assms by simp
  note i95 = idx95 [OF n]
  show ?thesis
    using i95 n
    by (auto simp: calc_daily_p95_def Let_def py_index_in_range)
qed

lemma summary_stats_nonempty:
  assumes "curve \<noteq> []"
  shows "\<exists>s. summary_stats curve interval = Inr s \<and>
             p95_gbps s = sort curve ! nat (py_int (real (length curve) * 0.95))"
proof -
  let ?n = "int (length curve)"
  have n: "0 < ?n" using assms by simp
  have ne: "sort curve \<noteq> []" using assms by (metis length_sort length_0_conv)
  note i95 = idx95 [OF n] and i99 = idx99 [OF n]
  have i50: "0 \<le> ?n div 2" "?n div 2 < ?n" using n by linarith+
  show ?thesis
    using i95 i99 i50 n assms
    by (simp add: summary_stats_def Let_def err_bind_def py_index_in_range
        py_index_last [OF ne])
qed

lemma calculate_p95_pair:
  "calculate_p95 [1, 2] = Inr (Stats
     \<lparr> total_points = 2, min_value = 1, max_value = 2, avg = 3 / 2, p50 = 2, p95 = 2, p99 = 2,
       top_5_percent = \<lparr> top_count = 1, top_min = 2, top_max = 2, top_avg = 2 \<rparr> \<rparr>)"
  by code_simp

lemma calc_daily_p95_pair: "calc_daily_p95 [1, 2] = Inr 1"
  by code_simp

text \<open>
  C3, as the claim states it, fails: on the empty list \<open>calculate_p95\<close> raises nothing
  and returns the dictionary \<open>{"error": ...}\<close>.
\<close>

theorem calculate_p95_empty_returns_sentinel: "calculate_p95 [] = Inr ErrorDict"
  by (rule calculate_p95_Nil)

text \<open>
  C3, amended.  On the empty list \<open>calculate_p95\<close> returns the error dictionary, a
  sentinel, and raises no error; on every non-empty list it returns statistics.
\<close>

theorem calculate_p95_result:
  "(values = [] \<longrightarrow> calculate_p95 values = Inr ErrorDict) \<and>
   (values \<noteq> [] \<longrightarrow> (\<exists>s. calculate_p95 values = Inr (Stats s)))"
  using calculate_p95_Nil calculate_p95_nonempty [of "values"] by blast

theorem calculate_p95_result_witness:
  "[3, 1, 2 :: real] \<noteq> [] \<and> (\<exists>s. calculate_p95 [3, 1, 2] = Inr (Stats s))"
  using calculate_p95_result [of "[3, 1, 2]"] by simp

text \<open>
  C5, as the claim states it, fails: on the two values 1 and 2 the analyzer's p95 is 2,
  the element at index \<open>floor(2 * 0.95) = 1\<close>, whereas index \<open>floor(2 * 0.95) - 1 = 0\<close>,
  the one the calibration pass uses, selects 1.
\<close>

theorem analyzer_index_differs_from_calibration:
  "calculate_p95 [1, 2] = Inr (Stats
     \<lparr> total_points = 2, min_value = 1, max_value = 2, avg = 3 / 2, p50 = 2, p95 = 2, p99 = 2,
       top_5_percent = \<lparr> top_count = 1, top_min = 2, top_max = 2, top_avg = 2 \<rparr> \<rparr>) \<and>
   calc_daily_p95 [1, 2] = Inr 1 \<and>
   sort [1, 2 :: real] ! nat (\<lfloor>2 * 0.95 :: real\<rfloor> - 1) = 1"
  using calculate_p95_pair calc_daily_p95_pair by simp

text \<open>
  C5, amended.  For a non-empty list of length \<open>n\<close>, the analyzer's p95 and the p95 of the
  orchestrator's summary are both the element at index \<open>floor(n * 0.95)\<close> of the sorted
  values; the calibration pass takes the element at index \<open>floor(n * 0.95) - 1\<close>, clamped
  below at 0.  So the analyzer agrees with the orchestrator, and the calibration index is
  one position lower than both whenever \<open>n \<ge> 2\<close>.
\<close>

theorem p95_index_formulas:
  assumes "values \<noteq> []"
  shows "(\<exists>s. calculate_p95 values = Inr (Stats s) \<and>
              p95 s = sort values ! nat \<lfloor>real (length values) * 0.95\<rfloor>) \<and>
         (\<exists>s. summary_stats values interval = Inr s \<and>
              p95_gbps s = sort values ! nat \<lfloor>real (length values) * 0.95\<rfloor>) \<and>
         calc_daily_p95 values
           = Inr (sort values ! nat (max 0 (\<lfloor>real (length values) * 0.95\<rfloor> - 1))) \<and>
         (2 \<le> length values \<longrightarrow>
            nat (max 0 (\<lfloor>real (length values) * 0.95\<rfloor> - 1)) + 1
              = nat \<lfloor>real (length values) * 0.95\<rfloor>)"
proof -
  have fl: "py_int (real (length values) * 0.95) = \<lfloor>real (length values) * 0.95\<rfloor>"
    by (rule py_int_floor) simp
  have clamp: "nat (max 0 (\<lfloor>real (length values) * 0.95\<rfloor> - 1))
                 = nat (\<lfloor>real (length values) * 0.95\<rfloor> - 1)"
    by simp
  have step: "2 \<le> length values \<longrightarrow>
      nat (max 0 (\<lfloor>real (length values) * 0.95\<rfloor> - 1)) + 1
        = nat \<lfloor>real (length values) * 0.95\<rfloor>"
  proof
    assume "2 \<le> length values"
    then have "1 \<le> real (length values) * 0.95" by simp
    then have "1 \<le> \<lfloor>real (length values) * 0.95\<rfloor>" by (simp add: le_floor_iff)
    then show "nat (max 0 (\<lfloor>real (length values) * 0.95\<rfloor> - 1)) + 1
        = nat \<lfloor>real (length values) * 0.95\<rfloor>"
      by linarith
  qed
  show ?thesis
    using calculate_p95_nonempty [OF assms] summary_stats_nonempty [OF assms, of interval]
      calc_daily_p95_nonempty [OF assms] step
    unfolding fl clamp by blast
qed

theorem p95_index_formulas_witness:
  "[3, 1, 2 :: real] \<noteq> [] \<and>
   (\<exists>s. calculate_p95 [3, 1, 2] = Inr (Stats s) \<and> p95 s = 3) \<and>
   (\<exists>s. summary_stats [3, 1, 2] 300 = Inr s \<and> p95_gbps s = 3) \<and>
   calc_daily_p95 [3, 1, 2] = Inr 2"
proof -
  have ne: "[3, 1, 2 :: real] \<noteq> []" by simp
  have f: "\<lfloor>real (length [3, 1, 2 :: real]) * 0.95\<rfloor> = 2" by simp
  have s: "sort [3, 1, 2 :: real] = [1, 2, 3]" by simp
  show ?thesis
    using p95_index_formulas [OF ne, of 300] unfolding f s by simp
qed

section \<open>Distribution over regions\<close>

lemma choice_ok:
  assumes "unit_draws d" "xs \<noteq> []"
  shows "choice xs d p = Inr (xs ! nat (py_int (d p * real (length xs))), Suc p) \<and>
         xs ! nat (py_int (d p * real (length xs))) \<in> set xs"
proof -
  have u: "0 \<le> d p" "d p < 1" using unit_drawsD [OF assms(1), of p] by simp_all
  have len: "0 < real (length xs)" using assms(2) by simp
  have "d p * real (length xs) < real (length xs)" using u len by simp
  moreover have "0 \<le> d p * real (length xs)" using u by simp
  ultimately have "nat (py_int (d p * real (length xs))) < length xs"
    by (simp add: py_int_def floor_less_iff nat_less_iff)
  then show ?thesis using assms(2) by (simp add: choice_def)
qed

lemma distribute_regions_shape:
  assumes "unit_draws d" "domains cfg \<noteq> []"
  shows "distribute_regions cfg d gm ts rs p =
           Inr (map (\<lambda>i. log_entry cfg gm ts (rs ! i)
                       (weight (rs ! i) * fst (uniform 0.9 1.1 d (p + 2 * i)))
                       (domains cfg ! nat (py_int (d (Suc (p + 2 * i)) * real (length (domains cfg))))))
                  [0..<length rs],
                p + 2 * length rs)"
proof (induction rs arbitrary: p)
  case Nil
  show ?case by simp
next
  case (Cons r rs)
  have c: "choice (domains cfg) d (Suc p) =
      Inr (domains cfg ! nat (py_int (d (Suc p) * real (length (domains cfg)))), Suc (Suc p))"
    using choice_ok [OF assms, of "Suc p"] by simp
  show ?case
    by (simp add: uniform_def err_bind_def c Cons.IH [of "Suc (Suc p)"] map_upt_Suc
        del: upt_Suc)
qed

lemma log_entry_int:
  "gm k = Some (IntV n) \<Longrightarrow> log_entry cfg gm ts r w dm k = Some (IntV (py_int (real_of_int n * w)))"
  by (simp add: log_entry_def map_add_def scale_value_def)

lemma log_entry_float:
  "gm k = Some (FloatV x) \<Longrightarrow> log_entry cfg gm ts r w dm k = Some (FloatV x)"
  by (simp add: log_entry_def map_add_def scale_value_def)

lemma log_entry_str:
  "gm k = Some (StrV s) \<Longrightarrow> log_entry cfg gm ts r w dm k = Some (StrV s)"
  by (simp add: log_entry_def map_add_def scale_value_def)

lemma log_entry_tags:
  assumes "dom gm \<inter> tag_keys = {}"
  shows "log_entry cfg gm ts r w dm ''tenantId'' = Some (StrV (tenant_id cfg)) \<and>
         log_entry cfg gm ts r w dm ''start_time'' = Some (IntV ts) \<and>
         log_entry cfg gm ts r w dm ''country'' = Some (StrV (country r)) \<and>
         log_entry cfg gm ts r w dm ''region'' = Some (StrV (region r)) \<and>
         log_entry cfg gm ts r w dm ''domain'' = Some (StrV dm) \<and>
         log_entry cfg gm ts r w dm ''interval'' = Some (IntV (interval_seconds cfg))"
proof -
  have "gm ''tenantId'' = None" "gm ''start_time'' = None" "gm ''country'' = None"
       "gm ''region'' = None" "gm ''domain'' = None" "gm ''interval'' = None"
    using assms by (auto simp: tag_keys_def)
  then show ?thesis by (simp add: log_entry_def map_add_def)
qed

lemma distribute_three:
  "(case distribute three_regions (\<lambda>_. 1/2) (metrics_items example_record) 0 0 of
      Inr (es, q) \<Rightarrow> sum_list (map (\<lambda>e. int_field e ''req_num'') es)
    | Inl e \<Rightarrow> - 1) = 699671 \<and> req_num example_record = 699672"
  by code_simp

text \<open>
  C9.  With draws in \<open>[0, 1)\<close>, a non-empty domain list and a source record that has
  none of the six tag keys (as every record \<open>derive\<close> builds), \<open>distribute\<close> returns
  one entry per configured region, in configuration order.  In the entry of region \<open>i\<close>
  every integer field of the record is \<open>int(v * weight * jitter)\<close> for the region's weight
  and its own jitter draw in \<open>[0.9, 1.1]\<close>, every float or string field is unchanged, and
  the entry carries the tenant id, the timestamp, the region's country and region, a
  domain of the configured list and the interval length.  The sum of a scaled field over
  the entries need not be the source field: for three regions of weights 0.5, 0.3 and
  0.2 and no jitter, the \<open>req_num\<close> values add up to 699671 for a source of 699672.
\<close>

theorem distribute_entries:
  assumes "unit_draws d" "domains cfg \<noteq> []" "dom gm \<inter> tag_keys = {}"
  shows "\<exists>entries p'. distribute cfg d gm ts p = Inr (entries, p') \<and>
     length entries = length (regions cfg) \<and>
     (\<forall>i < length (regions cfg).
        0.9 \<le> fst (uniform 0.9 1.1 d (p + 2 * i)) \<and> fst (uniform 0.9 1.1 d (p + 2 * i)) \<le> 1.1 \<and>
        (\<forall>k n. gm k = Some (IntV n) \<longrightarrow>
           (entries ! i) k = Some (IntV (py_int (real_of_int n *
              (weight (regions cfg ! i) * fst (uniform 0.9 1.1 d (p + 2 * i))))))) \<and>
        (\<forall>k x. gm k = Some (FloatV x) \<longrightarrow> (entries ! i) k = Some (FloatV x)) \<and>
        (\<forall>k s. gm k = Some (StrV s) \<longrightarrow> (entries ! i) k = Some (StrV s)) \<and>
        (entries ! i) ''tenantId'' = Some (StrV (tenant_id cfg)) \<and>
        (entries ! i) ''start_time'' = Some (IntV ts) \<and>
        (entries ! i) ''country'' = Some (StrV (country (regions cfg ! i))) \<and>
        (entries ! i) ''region'' = Some (StrV (region (regions cfg ! i))) \<and>
        (\<exists>dm \<in> set (domains cfg). (entries ! i) ''domain'' = Some (StrV dm)) \<and>
        (entries ! i) ''interval'' = Some (IntV (interval_seconds cfg))) \<and>
     (case distribute three_regions (\<lambda>_. 1/2) (metrics_items example_record) 0 0 of
        Inr (es, q) \<Rightarrow> sum_list (map (\<lambda>e. int_field e ''req_num'') es)
      | Inl e \<Rightarrow> - 1) \<noteq> req_num example_record"
proof -
  let ?dm = "\<lambda>i. domains cfg ! nat (py_int (d (Suc (p + 2 * i)) * real (length (domains cfg))))"
  let ?w = "\<lambda>i. weight (regions cfg ! i) * fst (uniform 0.9 1.1 d (p + 2 * i))"
  let ?e = "\<lambda>i. log_entry cfg gm ts (regions cfg ! i) (?w i) (?dm i)"
  have shape: "distribute cfg d gm ts p =
      Inr (map ?e [0..<length (regions cfg)], p + 2 * length (regions cfg))"
    unfolding distribute_def by (rule distribute_regions_shape [OF assms(1,2)])
  have each: "\<And>i. i < length (regions cfg) \<Longrightarrow>
        0.9 \<le> fst (uniform 0.9 1.1 d (p + 2 * i)) \<and> fst (uniform 0.9 1.1 d (p + 2 * i)) \<le> 1.1 \<and>
        (\<forall>k n. gm k = Some (IntV n) \<longrightarrow> ?e i k = Some (IntV (py_int (real_of_int n * ?w i)))) \<and>
        (\<forall>k x. gm k = Some (FloatV x) \<longrightarrow> ?e i k = Some (FloatV x)) \<and>
        (\<forall>k s. gm k = Some (StrV s) \<longrightarrow> ?e i k = Some (StrV s)) \<and>
        ?e i ''tenantId'' = Some (StrV (tenant_id cfg)) \<and>
        ?e i ''start_time'' = Some (IntV ts) \<and>
        ?e i ''country'' = Some (StrV (country (regions cfg ! i))) \<and>
        ?e i ''region'' = Some (StrV (region (regions cfg ! i))) \<and>
        (\<exists>dm \<in> set (domains cfg). ?e i ''domain'' = Some (StrV dm)) \<and>
        ?e i ''interval'' = Some (IntV (interval_seconds cfg))"
  proof -
    fix i
    have j: "0.9 \<le> fst (uniform 0.9 1.1 d (p + 2 * i))" "fst (uniform 0.9 1.1 d (p + 2 * i)) \<le> 1.1"
      using uniform_bounds [OF assms(1), of "0.9" "1.1" "p + 2 * i"] by simp_all
    have m: "?dm i \<in> set (domains cfg)"
      using choice_ok [OF assms(1,2), of "Suc (p + 2 * i)"] by simp
    note t = log_entry_tags [OF assms(3), of cfg ts "regions cfg ! i" "?w i" "?dm i"]
    show "0.9 \<le> fst (uniform 0.9 1.1 d (p + 2 * i)) \<and> fst (uniform 0.9 1.1 d (p + 2 * i)) \<le> 1.1 \<and>
        (\<forall>k n. gm k = Some (IntV n) \<longrightarrow> ?e i k = Some (IntV (py_int (real_of_int n * ?w i)))) \<and>
        (\<forall>k x. gm k = Some (FloatV x) \<longrightarrow> ?e i k = Some (FloatV x)) \<and>
        (\<forall>k s. gm k = Some (StrV s) \<longrightarrow> ?e i k = Some (StrV s)) \<and>
        ?e i ''tenantId'' = Some (StrV (tenant_id cfg)) \<and>
        ?e i ''start_time'' = Some (IntV ts) \<and>
        ?e i ''country'' = Some (StrV (country (regions cfg ! i))) \<and>
        ?e i ''region'' = Some (StrV (region (regions cfg ! i))) \<and>
        (\<exists>dm \<in> set (domains cfg). ?e i ''domain'' = Some (StrV dm)) \<and>
        ?e i ''interval'' = Some (IntV (interval_seconds cfg))"
      using j m t by (auto simp: log_entry_int log_entry_float log_entry_str)
  qed
  have differs: "(case distribute three_regions (\<lambda>_. 1/2) (metrics_items example_record) 0 0 of
        Inr (es, q) \<Rightarrow> sum_list (map (\<lambda>e. int_field e ''req_num'') es)
      | Inl e \<Rightarrow> - 1) \<noteq> req_num example_record"
    using distribute_three by simp
  have "\<exists>entries p'. distribute cfg d gm ts p = Inr (entries, p') \<and>
     length entries = length (regions cfg) \<and>
     (\<forall>i < length (regions cfg).
        0.9 \<le> fst (uniform 0.9 1.1 d (p + 2 * i)) \<and> fst (uniform 0.9 1.1 d (p + 2 * i)) \<le> 1.1 \<and>
        (\<forall>k n. gm k = Some (IntV n) \<longrightarrow>
           (entries ! i) k = Some (IntV (py_int (real_of_int n *
              (weight (regions cfg ! i) * fst (uniform 0.9 1.1 d (p + 2 * i))))))) \<and>
        (\<forall>k x. gm k = Some (FloatV x) \<longrightarrow> (entries ! i) k = Some (FloatV x)) \<and>
        (\<forall>k s. gm k = Some (StrV s) \<longrightarrow> (entries ! i) k = Some (StrV s)) \<and>
        (entries ! i) ''tenantId'' = Some (StrV (tenant_id cfg)) \<and>
        (entries ! i) ''start_time'' = Some (IntV ts) \<and>
        (entries ! i) ''country'' = Some (StrV (country (regions cfg ! i))) \<and>
        (entries ! i) ''region'' = Some (StrV (region (regions cfg ! i))) \<and>
        (\<exists>dm \<in> set (domains cfg). (entries ! i) ''domain'' = Some (StrV dm)) \<and>
        (entries ! i) ''interval'' = Some (IntV (interval_seconds cfg)))"
    unfolding shape using each by (intro exI conjI) (rule refl, simp, simp)
  then show ?thesis using differs by blast
qed

theorem distribute_entries_witness:
  "unit_draws (\<lambda>_. 1/2) \<and> domains three_regions \<noteq> [] \<and>
   dom (metrics_items example_record) \<inter> tag_keys = {} \<and>
   (\<exists>entries p'. distribute three_regions (\<lambda>_. 1/2) (metrics_items example_record) 0 0
        = Inr (entries, p') \<and> length entries = 3)"
proof -
  have u: "unit_draws (\<lambda>_. 1/2)" by (simp add: unit_draws_def)
  have dm: "domains three_regions \<noteq> []" by (simp add: three_regions_def)
  have k: "dom (metrics_items example_record) \<inter> tag_keys = {}"
    by (simp add: metrics_items_def tag_keys_def)
  have n: "length (regions three_regions) = 3" by (simp add: three_regions_def)
  show ?thesis
    using u dm k distribute_entries [OF u dm k, of 0 0] unfolding n by blast
qed

section \<open>Calibration of the curve\<close>

lemma sort_scale:
  assumes "0 < (c::real)"
  shows "sort (map (\<lambda>x. x * c) xs) = map (\<lambda>x. x * c) (sort xs)"
proof (rule properties_for_sort)
  show "mset (map (\<lambda>x. x * c) (sort xs)) = mset (map (\<lambda>x. x * c) xs)"
    by simp
  have "sorted_wrt (\<le>) (sort xs)" by simp
  then have "sorted_wrt (\<lambda>x y. x * c \<le> y * c) (sort xs)"
    by (rule sorted_wrt_mono_rel [rotated]) (simp add: assms)
  then show "sorted (map (\<lambda>x. x * c) (sort xs))"
    by (simp add: sorted_map)
qed

lemma p95_position:
  assumes "w \<noteq> []"
  shows "nat (py_int (real (length w) * 0.95) - 1) < length w"
proof -
  have pos: "0 < int (length w)" using assms by simp
  from idx95 [OF this] have "py_int (real (length w) * 0.95) < int (length w)" by simp
  then show ?thesis using pos by linarith
qed

lemma p95_in_set:
  assumes "w \<noteq> []"
  shows "sort w ! nat (py_int (real (length w) * 0.95) - 1) \<in> set w"
proof -
  have "sort w ! nat (py_int (real (length w) * 0.95) - 1) \<in> set (sort w)"
    using p95_position [OF assms] by (intro nth_mem) simp
  then show ?thesis by simp
qed

lemma calc_daily_p95_scale:
  assumes "w \<noteq> []" "0 < c"
  shows "calc_daily_p95 (map (\<lambda>x. x * c) w)
           = Inr (sort w ! nat (py_int (real (length w) * 0.95) - 1) * c)"
proof -
  let ?k = "nat (py_int (real (length w) * 0.95) - 1)"
  have ne: "map (\<lambda>x. x * c) w \<noteq> []" using assms(1) by simp
  have k: "?k < length (sort w)" using p95_position [OF assms(1)] by simp
  have "calc_daily_p95 (map (\<lambda>x. x * c) w) = Inr (sort (map (\<lambda>x. x * c) w) ! ?k)"
    using calc_daily_p95_nonempty [OF ne] by simp
  also have "sort (map (\<lambda>x. x * c) w) ! ?k = map (\<lambda>x. x * c) (sort w) ! ?k"
    by (simp only: sort_scale [OF assms(2)])
  also have "\<dots> = sort w ! ?k * c"
    using k by (rule nth_map)
  finally show ?thesis .
qed

lemma collect_calc_daily_p95:
  assumes "\<forall>w \<in> set ws. w \<noteq> []"
  shows "collect (map calc_daily_p95 ws)
           = Inr (map (\<lambda>w. sort w ! nat (py_int (real (length w) * 0.95) - 1)) ws)"
  using assms by (induction ws) (simp_all add: err_bind_def calc_daily_p95_nonempty)

lemma collect_calc_daily_p95_scale:
  assumes "\<forall>w \<in> set ws. w \<noteq> []" "0 < c"
  shows "collect (map calc_daily_p95 (map (map (\<lambda>x. x * c)) ws))
           = Inr (map (\<lambda>v. v * c) (map (\<lambda>w. sort w ! nat (py_int (real (length w) * 0.95) - 1)) ws))"
  using assms by (induction ws) (simp_all add: err_bind_def calc_daily_p95_scale)

lemma daily_windows_nonempty:
  assumes "0 < n" "w \<in> set (daily_windows n xs)"
  shows "w \<noteq> []"
proof -
  obtain k where k: "k < (length xs + n - 1) div n" and w: "w = take n (drop (k * n) xs)"
    using assms(2) by (auto simp: daily_windows_def)
  have "k * n < length xs"
  proof (rule ccontr)
    assume "\<not> k * n < length xs"
    then have "length xs \<le> k * n" by simp
    then have "length xs + n - 1 < (k + 1) * n" using assms(1) by simp
    then have "(length xs + n - 1) div n < k + 1"
      using assms(1) by (simp add: div_less_iff_less_mult)
    then show False using k by simp
  qed
  then show ?thesis using assms(1) w by simp
qed

lemma daily_windows_map:
  "daily_windows n (map f xs) = map (map f) (daily_windows n xs)"
  by (simp add: daily_windows_def take_map drop_map)

lemma daily_windows_first:
  assumes "0 < n" "n \<le> length xs"
  shows "\<exists>ws. daily_windows n xs = take n xs # ws"
proof -
  have "n \<le> length xs + n - 1" using assms by simp
  then have "1 \<le> (length xs + n - 1) div n"
    using assms(1) by (simp add: less_eq_div_iff_mult_less_eq)
  then obtain c where c: "(length xs + n - 1) div n = Suc c"
    by (cases "(length xs + n - 1) div n") simp_all
  show ?thesis
    unfolding daily_windows_def c by (simp add: upt_conv_Cons del: upt_Suc)
qed


lemma daily_p95_list_positive_day:
  assumes "interval_seconds cfg div 60 \<noteq> 0" "0 < 24 * 60 div (interval_seconds cfg div 60)"
  shows "daily_p95_list cfg curve =
     Inr (map (\<lambda>w. sort w ! nat (py_int (real (length w) * 0.95) - 1))
           (filter (\<lambda>w. real (length w)
                       \<ge> real_of_int (24 * 60 div (interval_seconds cfg div 60)) * 0.5)
              (daily_windows (nat (24 * 60 div (interval_seconds cfg div 60))) curve)))"
proof -
  let ?n = "nat (24 * 60 div (interval_seconds cfg div 60))"
  have n: "0 < ?n" using assms(2) by simp
  have ne: "\<forall>w \<in> set (filter (\<lambda>w. real (length w)
                       \<ge> real_of_int (24 * 60 div (interval_seconds cfg div 60)) * 0.5)
              (daily_windows ?n curve)). w \<noteq> []"
    using daily_windows_nonempty [OF n] by auto
  show ?thesis
    using assms collect_calc_daily_p95 [OF ne]
    by (simp add: daily_p95_list_def Let_def)
qed

lemma daily_p95_list_scale:
  assumes "daily_p95_list cfg raw = Inr ps0" "0 < c"
  shows "daily_p95_list cfg (map (\<lambda>x. x * c) raw) = Inr (map (\<lambda>v. v * c) ps0)"
proof -
  let ?ppd = "24 * 60 div (interval_seconds cfg div 60)"
  let ?P = "\<lambda>w :: real list. real (length w) \<ge> real_of_int ?ppd * 0.5"
  have m: "interval_seconds cfg div 60 \<noteq> 0" and z: "?ppd \<noteq> 0"
    using assms(1) by (auto simp: daily_p95_list_def Let_def split: if_splits)
  show ?thesis
  proof (cases "?ppd < 0")
    case True
    then show ?thesis
      using assms(1) m z by (auto simp: daily_p95_list_def Let_def)
  next
    case False
    then have pos: "0 < ?ppd" using z by linarith
    have n: "0 < nat ?ppd" using pos by simp
    let ?W = "filter ?P (daily_windows (nat ?ppd) raw)"
    have ne: "\<forall>w \<in> set ?W. w \<noteq> []"
      using daily_windows_nonempty [OF n] by auto
    have ps0: "ps0 = map (\<lambda>w. sort w ! nat (py_int (real (length w) * 0.95) - 1)) ?W"
      using assms(1) daily_p95_list_positive_day [OF m pos, of raw] by simp
    have "filter ?P (daily_windows (nat ?ppd) (map (\<lambda>x. x * c) raw))
            = map (map (\<lambda>x. x * c)) ?W"
      by (simp add: daily_windows_map filter_map comp_def)
    then have "daily_p95_list cfg (map (\<lambda>x. x * c) raw)
            = collect (map calc_daily_p95 (map (map (\<lambda>x. x * c)) ?W))"
      using m pos by (simp add: daily_p95_list_def Let_def)
    then show ?thesis
      using collect_calc_daily_p95_scale [OF ne assms(2)] ps0 by simp
  qed
qed

lemma daily_p95_list_lower_bound:
  assumes "daily_p95_list cfg raw = Inr ps" "\<forall>x \<in> set raw. a \<le> x"
  shows "\<forall>v \<in> set ps. a \<le> v"
proof -
  let ?ppd = "24 * 60 div (interval_seconds cfg div 60)"
  have m: "interval_seconds cfg div 60 \<noteq> 0" and z: "?ppd \<noteq> 0"
    using assms(1) by (auto simp: daily_p95_list_def Let_def split: if_splits)
  show ?thesis
  proof (cases "?ppd < 0")
    case True
    then have "ps = []"
      using assms(1) m z by (auto simp: daily_p95_list_def Let_def)
    then show ?thesis by simp
  next
    case False
    then have pos: "0 < ?ppd" using z by linarith
    have n: "0 < nat ?ppd" using pos by simp
    have ps: "ps = map (\<lambda>w. sort w ! nat (py_int (real (length w) * 0.95) - 1))
                 (filter (\<lambda>w. real (length w) \<ge> real_of_int ?ppd * 0.5)
                    (daily_windows (nat ?ppd) raw))"
      using assms(1) daily_p95_list_positive_day [OF m pos, of raw] by simp
    show ?thesis
    proof
      fix v assume "v \<in> set ps"
      then obtain w where w: "w \<in> set (daily_windows (nat ?ppd) raw)"
        and v: "v = sort w ! nat (py_int (real (length w) * 0.95) - 1)"
        unfolding ps by auto
      have "w \<noteq> []" using daily_windows_nonempty [OF n w] .
      then have "v \<in> set w" unfolding v by (rule p95_in_set)
      moreover have "set w \<subseteq> set raw"
        using w by (auto simp: daily_windows_def dest: in_set_takeD in_set_dropD)
      ultimately show "a \<le> v" using assms(2) by auto
    qed
  qed
qed

lemma sum_list_lower_bound:
  fixes ps :: "real list"
  assumes "\<forall>v \<in> set ps. a \<le> v"
  shows "a * real (length ps) \<le> sum_list ps"
  using assms by (induction ps) (simp_all add: algebra_simps)

lemma mean_lower_bound:
  fixes ps :: "real list"
  assumes "ps \<noteq> []" "\<forall>v \<in> set ps. a \<le> v"
  shows "a \<le> sum_list ps / real (length ps)"
proof -
  have "0 < real (length ps)" using assms(1) by simp
  then show ?thesis
    using sum_list_lower_bound [OF assms(2)] by (simp add: pos_le_divide_eq)
qed

lemma sum_list_scale:
  fixes ps :: "real list"
  shows "sum_list (map (\<lambda>v. v * c) ps) = sum_list ps * c"
  by (induction ps) (simp_all add: algebra_simps)

lemma sample_point_floor: "0.1 \<le> fst (sample_point cfg t days iv d i p)"
  by (simp add: sample_point_def Let_def split_beta)

lemma sample_points_floor:
  "\<forall>x \<in> set (fst (sample_points cfg t days iv d js p)). 0.1 \<le> x"
proof (induction js arbitrary: p)
  case Nil
  show ?case by simp
next
  case (Cons j js)
  show ?case
    using sample_point_floor [of cfg t days iv d j p]
      Cons.IH [of "snd (sample_point cfg t days iv d j p)"]
    by (simp add: split_beta)
qed

lemma sample_points_length:
  "length (fst (sample_points cfg t days iv d js p)) = length js"
  by (induction js arbitrary: p) (simp_all add: split_beta)

lemma generate_inversion:
  assumes "generate cfg t d days iv p = Inr (curve, p')"
  shows "iv div 60 \<noteq> 0 \<and>
         adjust_to_target cfg t
           (fst (sample_points cfg t days iv d [0..days * 24 * 60 div (iv div 60) - 1] p))
           = Inr curve"
  using assms
  by (auto simp: generate_def Let_def split_beta err_bind_def split: if_splits sum.splits)

lemma adjust_to_target_inversion:
  assumes "adjust_to_target cfg t raw = Inr curve"
  shows "\<exists>ps0. daily_p95_list cfg raw = Inr ps0 \<and> (ps0 = [] \<longrightarrow> raw \<noteq> [])"
  using assms
  by (auto simp: adjust_to_target_def err_bind_def split: if_splits sum.splits)

lemma adjust_to_target_p95s:
  assumes adj: "adjust_to_target cfg t raw = Inr curve"
    and raw: "\<forall>x \<in> set raw. 0.1 \<le> x"
  shows "\<exists>ps0 ps. daily_p95_list cfg raw = Inr ps0 \<and> daily_p95_list cfg curve = Inr ps \<and>
           length ps = length ps0 \<and> (ps \<noteq> [] \<longrightarrow> p95_deviation t ps \<le> 0.02)"
proof -
  obtain ps0 where l: "daily_p95_list cfg raw = Inr ps0" and e: "ps0 = [] \<longrightarrow> raw \<noteq> []"
    using adjust_to_target_inversion [OF adj] by blast
  define avg where "avg = (if ps0 \<noteq> [] then sum_list ps0 / real (length ps0) else Max (set raw))"
  have "0.1 \<le> avg"
  proof (cases "ps0 = []")
    case True
    then have "raw \<noteq> []" using e by simp
    then have "Max (set raw) \<in> set raw" by (intro Max_in) simp_all
    then show ?thesis using raw True by (simp add: avg_def)
  next
    case False
    show ?thesis
      using mean_lower_bound [OF False daily_p95_list_lower_bound [OF l raw]] False
      by (simp add: avg_def)
  qed
  then have avg: "0 < avg" by linarith
  have tne: "t \<noteq> 0"
    using adj l by (auto simp: adjust_to_target_def err_bind_def split: if_splits)
  have mid: "(if ps0 \<noteq> [] then Inr (sum_list ps0 / real (length ps0))
              else if raw = [] then Inl ValueError
              else Inr (Max (set raw))) = (Inr avg :: py_error + real)"
    using e by (auto simp: avg_def)
  have adj': "(if 0.02 < \<bar>avg - t\<bar> / t
               then if avg = 0 then Inl ZeroDivisionError
                    else Inr (map (\<lambda>bw. bw * (t / avg)) raw)
               else Inr raw) = Inr curve"
    using adj unfolding adjust_to_target_def err_bind_def
    by (simp only: l sum.case mid if_not_P [OF tne])
  show ?thesis
  proof (cases "0.02 < \<bar>avg - t\<bar> / t")
    case False
    then have "curve = raw" using adj' by simp
    moreover have "ps0 \<noteq> [] \<longrightarrow> p95_deviation t ps0 \<le> 0.02"
    proof
      assume "ps0 \<noteq> []"
      then have "p95_deviation t ps0 = \<bar>avg - t\<bar> / t"
        by (simp add: p95_deviation_def avg_def)
      then show "p95_deviation t ps0 \<le> 0.02" using False by simp
    qed
    ultimately show ?thesis using l by blast
  next
    case True
    have "(0 :: real) < 0.02" by simp
    then have "0 < \<bar>avg - t\<bar> / t" using True by (rule less_trans)
    then have t: "0 < t" by (auto simp: zero_less_divide_iff)
    define c where "c = t / avg"
    have c: "0 < c" unfolding c_def using t avg by (rule divide_pos_pos)
    have "curve = map (\<lambda>bw. bw * c) raw"
      using adj' True avg unfolding c_def by simp
    then have lc: "daily_p95_list cfg curve = Inr (map (\<lambda>v. v * c) ps0)"
      using daily_p95_list_scale [OF l c] by simp
    have "ps0 \<noteq> [] \<longrightarrow> p95_deviation t (map (\<lambda>v. v * c) ps0) \<le> 0.02"
    proof
      assume ne: "ps0 \<noteq> []"
      then have a: "avg = sum_list ps0 / real (length ps0)" by (simp add: avg_def)
      have "sum_list (map (\<lambda>v. v * c) ps0) / real (length (map (\<lambda>v. v * c) ps0)) = avg * c"
        unfolding a by (simp add: sum_list_scale)
      also have "\<dots> = t" unfolding c_def using avg by simp
      finally have "p95_deviation t (map (\<lambda>v. v * c) ps0) = 0"
        unfolding p95_deviation_def by simp
      then show "p95_deviation t (map (\<lambda>v. v * c) ps0) \<le> 0.02" by simp
    qed
    then show ?thesis using l lc by (intro exI [of _ ps0] exI [of _ "map (\<lambda>v. v * c) ps0"]) simp
  qed
qed

lemma first_day_counted:
  assumes m: "0 < interval_seconds cfg div 60"
    and ppd: "0 < 24 * 60 div (interval_seconds cfg div 60)"
    and len: "nat (24 * 60 div (interval_seconds cfg div 60)) \<le> length raw"
    and l: "daily_p95_list cfg raw = Inr ps0"
  shows "ps0 \<noteq> []"
proof -
  let ?ppd = "24 * 60 div (interval_seconds cfg div 60)"
  have n: "0 < nat ?ppd" using ppd by simp
  obtain ws where ws: "daily_windows (nat ?ppd) raw = take (nat ?ppd) raw # ws"
    using daily_windows_first [OF n len] by blast
  have "real (length (take (nat ?ppd) raw)) \<ge> real_of_int ?ppd * 0.5"
    using len ppd by simp
  then have "filter (\<lambda>w. real (length w) \<ge> real_of_int ?ppd * 0.5)
               (daily_windows (nat ?ppd) raw) \<noteq> []"
    unfolding ws by simp
  moreover have "interval_seconds cfg div 60 \<noteq> 0" using m by simp
  ultimately show ?thesis
    using l daily_p95_list_positive_day [OF _ ppd, of raw] by auto
qed

lemma first_day_of_generate:
  assumes g: "generate cfg t d days (interval_seconds cfg) p = Inr (curve, p')"
    and days: "1 \<le> days"
    and l: "daily_p95_list cfg
              (fst (sample_points cfg t days (interval_seconds cfg) d
                     [0..days * 24 * 60 div (interval_seconds cfg div 60) - 1] p)) = Inr ps0"
  shows "ps0 \<noteq> []"
proof -
  let ?m = "interval_seconds cfg div 60"
  let ?total = "days * 24 * 60 div ?m"
  let ?raw = "fst (sample_points cfg t days (interval_seconds cfg) d [0..?total - 1] p)"
  have m0: "?m \<noteq> 0" and adj: "adjust_to_target cfg t ?raw = Inr curve"
    using generate_inversion [OF g] by simp_all
  have e: "ps0 = [] \<longrightarrow> ?raw \<noteq> []"
    using adjust_to_target_inversion [OF adj] l by auto
  have z: "24 * 60 div ?m \<noteq> 0"
    using l by (auto simp: daily_p95_list_def Let_def split: if_splits)
  have len: "length ?raw = nat ?total"
    by (simp add: sample_points_length)
  have mpos: "0 < ?m"
  proof (rule ccontr)
    assume "\<not> 0 < ?m"
    then have neg: "?m < 0" using m0 by linarith
    have "0 < days * 24 * 60" using days by simp
    then have "?total < 0" using neg by (simp only: neg_imp_zdiv_neg_iff)
    then have "?raw = []" using len by simp
    moreover have "24 * 60 div ?m < 0" using neg by (simp only: neg_imp_zdiv_neg_iff)
    then have "ps0 = []"
      using l m0 z by (auto simp: daily_p95_list_def Let_def)
    ultimately show False using e by simp
  qed
  have "0 \<le> 24 * 60 div ?m" using mpos by (simp add: pos_imp_zdiv_nonneg_iff)
  then have ppd: "0 < 24 * 60 div ?m" using z by linarith
  have "24 * 60 \<le> days * 24 * 60" using days by simp
  then have "24 * 60 div ?m \<le> ?total" using mpos by (rule zdiv_mono1)
  then have "nat (24 * 60 div ?m) \<le> length ?raw" using len by simp
  from first_day_counted [OF mpos ppd this l] show "ps0 \<noteq> []" .
qed

lemmas generate_unfold =
  generate_def sample_point_def adjust_to_target_def daily_p95_list_def daily_windows_def
  calc_daily_p95_def Let_def err_bind_def py_index_def py_int_def uniform_def random_def

lemma generate_small:
  "generate small_config 0.05 (\<lambda>_. 1/2) 1 86400 0 = Inr ([0.05], 2)"
  by (simp add: generate_unfold small_config_def example_config_def)

lemmas week_point_unfold =
  sample_point_def Let_def uniform_def random_def week_config_def example_config_def
  week_draws_def

lemma week_draws_values: "week_draws i \<in> {0, 1 / 4, 5 / 16, 1 / 2, 3 / 4}"
  by (simp add: week_draws_def)

lemma week_point_0: "sample_point week_config 1000 7 86400 week_draws 0 0 = (690, 2)"
  by (simp add: week_point_unfold)

lemma week_point_1: "sample_point week_config 1000 7 86400 week_draws 1 2 = (690, 4)"
  by (simp add: week_point_unfold)

lemma week_point_2: "sample_point week_config 1000 7 86400 week_draws 2 4 = (1380, 7)"
  by (simp add: week_point_unfold)

lemma week_point_3: "sample_point week_config 1000 7 86400 week_draws 3 7 = (1309.5, 10)"
  by (simp add: week_point_unfold)

lemma week_point_4: "sample_point week_config 1000 7 86400 week_draws 4 10 = (1897.5, 13)"
  by (simp add: week_point_unfold)

lemma week_point_5: "sample_point week_config 1000 7 86400 week_draws 5 13 = (586.5, 15)"
  by (simp add: week_point_unfold)

lemma week_point_6: "sample_point week_config 1000 7 86400 week_draws 6 15 = (586.5, 17)"
  by (simp add: week_point_unfold)

lemma week_points:
  "sample_points week_config 1000 7 86400 week_draws [0..6] 0 = (week_curve, 17)"
  by (simp add: upto.simps week_curve_def week_point_0 week_point_1 week_point_2
        week_point_3 week_point_4 week_point_5 week_point_6)

lemma daily_windows_single: "daily_windows (Suc 0) xs = map (\<lambda>x. [x]) xs"
proof -
  have "daily_windows (Suc 0) xs = map (\<lambda>k. take (Suc 0) (drop k xs)) [0..<length xs]"
    by (simp add: daily_windows_def)
  also have "\<dots> = map (\<lambda>k. [xs ! k]) [0..<length xs]"
    by (rule map_cong) (simp_all add: Cons_nth_drop_Suc [symmetric])
  also have "\<dots> = map (\<lambda>x. [x]) (map (\<lambda>k. xs ! k) [0..<length xs])"
    by (simp add: comp_def)
  also have "\<dots> = map (\<lambda>x. [x]) xs"
    by (simp only: map_nth)
  finally show ?thesis .
qed

lemma calc_daily_p95_single: "calc_daily_p95 [x] = Inr x"
  by (simp add: calc_daily_p95_def Let_def py_index_def py_int_def)

lemma collect_single: "collect (map (calc_daily_p95 \<circ> (\<lambda>x. [x])) xs) = Inr xs"
  by (induction xs) (simp_all add: calc_daily_p95_single err_bind_def)

lemma filter_single:
  assumes "\<And>x. P [x]"
  shows "filter P (map (\<lambda>x. [x]) xs) = map (\<lambda>x. [x]) xs"
  by (induction xs) (simp_all add: assms)

lemma daily_p95_list_week: "daily_p95_list week_config xs = Inr xs"
  by (simp add: daily_p95_list_def week_config_def example_config_def Let_def
      daily_windows_single filter_single collect_single)

lemma p95_deviation_week: "p95_deviation 1000 week_curve = 0.02"
  by (simp add: p95_deviation_def week_curve_def)

lemma adjust_week: "adjust_to_target week_config 1000 week_curve = Inr week_curve"
  unfolding adjust_to_target_def daily_p95_list_week
  by (simp add: err_bind_def week_curve_def)

lemma generate_week:
  "generate week_config 1000 week_draws 7 86400 0 = Inr (week_curve, 17)"
  unfolding generate_def
  by (simp add: week_points adjust_week err_bind_def)

lemma six_hour_point_0:
  "i \<in> {0, 4} \<Longrightarrow>
     sample_point six_hour_config 20 2 21600 (\<lambda>_. 1/2) i p = (13.8, Suc (Suc p))"
  by (auto simp: sample_point_def Let_def uniform_def random_def six_hour_config_def
        example_config_def)

lemma six_hour_point_6:
  "i \<in> {1, 3, 5, 7} \<Longrightarrow>
     sample_point six_hour_config 20 2 21600 (\<lambda>_. 1/2) i p = (21.85, Suc (Suc p))"
  by (auto simp: sample_point_def Let_def uniform_def random_def six_hour_config_def
        example_config_def)

lemma six_hour_point_12:
  "i \<in> {2, 6} \<Longrightarrow>
     sample_point six_hour_config 20 2 21600 (\<lambda>_. 1/2) i p = (29.9, Suc (Suc p))"
  by (auto simp: sample_point_def Let_def uniform_def random_def six_hour_config_def
        example_config_def)

lemma six_hour_points:
  "sample_points six_hour_config 20 2 21600 (\<lambda>_. 1/2) [0..7] 0 = (six_hour_raw, 16)"
  by (simp add: upto.simps six_hour_raw_def six_hour_point_0 six_hour_point_6 six_hour_point_12)

lemma six_hour_windows:
  "daily_windows 4 six_hour_raw = [[13.8, 21.85, 29.9, 21.85], [13.8, 21.85, 29.9, 21.85]]"
  by (simp add: daily_windows_def six_hour_raw_def upt_conv_Cons)

lemma six_hour_p95_list: "daily_p95_list six_hour_config six_hour_raw = Inr [21.85, 21.85]"
proof -
  have n: "nat (24 * 60 div (interval_seconds six_hour_config div 60)) = 4"
    by (simp add: six_hour_config_def example_config_def)
  show ?thesis
    unfolding daily_p95_list_def Let_def n six_hour_windows
    by (simp add: six_hour_config_def example_config_def calc_daily_p95_def Let_def
          py_index_def py_int_def err_bind_def)
qed

lemma six_hour_adjust:
  "adjust_to_target six_hour_config 20 six_hour_raw = Inr six_hour_curve"
  unfolding adjust_to_target_def six_hour_p95_list
  by (simp add: err_bind_def six_hour_raw_def six_hour_curve_def)

lemma generate_six_hour:
  "generate six_hour_config 20 (\<lambda>_. 1/2) 2 21600 0 = Inr (six_hour_curve, 16)"
  unfolding generate_def
  by (simp add: six_hour_points six_hour_adjust err_bind_def)

text \<open>
  C1, as the claim states it, fails.  Seven days of one sample each (interval 86400 s),
  target 1000 Gbps, burst probability 0.05, and the draws \<open>week_draws\<close>.  Every sample is
  at hour 0, so the daily factor is 0.6; the monthly factor is 1.15 on every day but day 3
  and the weekly factor is 0.85 on days 5 and 6.  Days 0 and 1 have noise 1 and no burst:
  690.  Day 2 has noise 1 and a burst of factor 2: 1380.  Day 3 has noise 0.97 and a
  burst of factor 2.25: 1309.5.  Day 4 has noise 1 and a burst of factor 2.75: 1897.5.
  Days 5 and 6 have noise 1 and no burst: 586.5.  Each day is one window, so the daily p95
  values are the samples themselves; their sum is 7140 and their mean 1020.  The
  deviation is exactly 2%, which the guard \<open>> 0.02\<close> accepts, so the curve is returned as
  it is, and 2% is not below 2%.

  The run is one the program can make: each draw is a value of \<open>random.random()\<close>, and
  evaluated in IEEE double precision the same draws give the same seven samples, the sum
  7140.0, the mean 1020.0 and the quotient 20.0 / 1000.0, which is the double the literal
  \<open>0.02\<close> denotes and so is not greater than it.
\<close>

theorem deviation_on_the_tolerance_line:
  "generate week_config 1000 week_draws 7 86400 0 = Inr (week_curve, 17) \<and>
   daily_p95_list week_config week_curve = Inr week_curve \<and>
   \<not> p95_deviation 1000 week_curve < 0.02"
  using generate_week daily_p95_list_week [of week_curve] p95_deviation_week by simp

text \<open>
  C1, amended.  For every curve \<open>generate\<close> returns, the daily p95 pass succeeds on the
  returned curve and, when it counts at least one day, the mean of the daily p95 values
  deviates from the target by at most 2% relative: exactly 0 after a rescale, and at most
  2% when the guard left the curve alone.  At least one day is counted when \<open>generate\<close>
  is called with the interval of the configuration (as the orchestrator calls it) and at
  least one day.  The bound is one of exact arithmetic: the samples are real numbers
  here, so the rounding of the rescaled samples and an overflow for a target near the
  largest double are not part of the statement.
\<close>

theorem calibrated_mean_within_tolerance:
  assumes "generate cfg target d days interval p = Inr (curve, p')"
  shows "\<exists>p95s. daily_p95_list cfg curve = Inr p95s \<and>
           (p95s \<noteq> [] \<longrightarrow> p95_deviation target p95s \<le> 0.02) \<and>
           (interval = interval_seconds cfg \<and> 1 \<le> days \<longrightarrow> p95s \<noteq> [])"
proof -
  let ?raw = "fst (sample_points cfg target days interval d
                     [0..days * 24 * 60 div (interval div 60) - 1] p)"
  have adj: "adjust_to_target cfg target ?raw = Inr curve"
    using generate_inversion [OF assms] by simp
  have fl: "\<forall>x \<in> set ?raw. 0.1 \<le> x"
    by (rule sample_points_floor)
  obtain ps0 ps where l0: "daily_p95_list cfg ?raw = Inr ps0"
      and l: "daily_p95_list cfg curve = Inr ps"
      and len: "length ps = length ps0"
      and dev: "ps \<noteq> [] \<longrightarrow> p95_deviation target ps \<le> 0.02"
    using adjust_to_target_p95s [OF adj fl] by blast
  have "interval = interval_seconds cfg \<and> 1 \<le> days \<longrightarrow> ps \<noteq> []"
  proof
    assume c: "interval = interval_seconds cfg \<and> 1 \<le> days"
    have "ps0 \<noteq> []"
      using first_day_of_generate [of cfg target d days p curve p' ps0] assms l0 c by simp
    then show "ps \<noteq> []" using len by auto
  qed
  then show ?thesis using l dev by blast
qed

text \<open>
  The theorem at a run that is rescaled: two days of four samples each, every draw
  \<open>1/2\<close>.  The daily p95 of both days is 21.85, which is 9.25% above the target of 20,
  and every sample is multiplied by \<open>20 / 21.85\<close>.
\<close>

theorem calibrated_mean_within_tolerance_witness:
  "generate six_hour_config 20 (\<lambda>_. 1/2) 2 21600 0 = Inr (six_hour_curve, 16) \<and>
   (\<exists>p95s. daily_p95_list six_hour_config six_hour_curve = Inr p95s \<and> p95s \<noteq> [] \<and>
      p95_deviation 20 p95s \<le> 0.02)"
proof -
  have g: "generate six_hour_config 20 (\<lambda>_. 1/2) 2 21600 0 = Inr (six_hour_curve, 16)"
    by (rule generate_six_hour)
  have c: "21600 = interval_seconds six_hour_config \<and> (1 :: int) \<le> 2"
    by (simp add: six_hour_config_def example_config_def)
  show ?thesis
    using g c calibrated_mean_within_tolerance [OF g] by blast
qed

text \<open>
  C4, at a failing input.  For a target of 0.05 Gbps, one day and one sample per day, the
  sample is clamped to 0.1 Gbps, its p95 of 0.1 is 100% off the target, and the rescale by
  0.05 / 0.1 returns the curve \<open>[0.05]\<close>: the returned sample is below 0.1 Gbps.
\<close>

theorem rescale_undoes_floor:
  "generate small_config (target_bandwidth_gbps small_config) (\<lambda>_. 1/2)
     (duration_days small_config) (interval_seconds small_config) 0 = Inr ([0.05], 2) \<and>
   (0.05 :: real) < 0.1"
  using generate_small by (simp add: small_config_def example_config_def)

section \<open>A full day with every draw at one half\<close>

lemma steady_sample_floor: "13.8 \<le> steady_sample i"
proof -
  have aux: "\<And>s :: real. - 1 \<le> s \<Longrightarrow> 13.8 \<le> 23 * (0.95 + 0.35 * s)" by simp
  show ?thesis unfolding steady_sample_def by (rule aux) (rule sin_ge_minus_one)
qed

lemma sample_point_steady:
  assumes "0 \<le> i" "i < 288"
  shows "sample_point example_config 20 1 300 (\<lambda>_. 1/2) i p = (steady_sample i, Suc (Suc p))"
proof -
  have h: "(i * (300 div 60) div 60) mod 24 = i div 12" using assms by auto
  have w: "(i * (300 div 60) div 1440) mod 7 = 0" using assms by auto
  have m: "i * (300 div 60) div 1440 = 0" using assms by auto
  have fl: "max 0.1 (steady_sample i) = steady_sample i"
    using steady_sample_floor [of i] by simp
  have "sample_point example_config 20 1 300 (\<lambda>_. 1/2) i p
          = (max 0.1 (steady_sample i), Suc (Suc p))"
    unfolding sample_point_def Let_def h w m
    by (simp add: uniform_def random_def example_config_def steady_sample_def algebra_simps)
  then show ?thesis by (simp only: fl)
qed

lemma sample_points_steady:
  assumes "\<forall>j \<in> set js. 0 \<le> j \<and> j < 288"
  shows "sample_points example_config 20 1 300 (\<lambda>_. 1/2) js p
           = (map steady_sample js, p + 2 * length js)"
  using assms
proof (induction js arbitrary: p)
  case Nil
  show ?case by simp
next
  case (Cons j js)
  have j: "0 \<le> j" "j < 288" using Cons.prems by simp_all
  have rest: "\<forall>j \<in> set js. 0 \<le> j \<and> j < 288" using Cons.prems by simp
  show ?case
    by (simp add: sample_point_steady [OF j] Cons.IH [OF rest])
qed

lemma steady_pair: "steady_sample j + steady_sample (j + 144) = 43.7"
proof -
  have "(j + 144) div 12 = j div 12 + 12" by simp
  then have "real_of_int ((j + 144) div 12 - 6) * pi / 12
               = real_of_int (j div 12 - 6) * pi / 12 + pi"
    by (simp add: field_simps)
  then have "sin (real_of_int ((j + 144) div 12 - 6) * pi / 12)
               = - sin (real_of_int (j div 12 - 6) * pi / 12)"
    by (simp only: sin_periodic_pi)
  then show ?thesis unfolding steady_sample_def by simp
qed

lemma steady_sum: "sum_list (map steady_sample [0..287]) = 6292.8"
proof -
  have "sum_list (map steady_sample [0..287]) = sum steady_sample {0..287}"
    by (simp add: interv_sum_list_conv_sum_set_int)
  also have "{0..287::int} = {0..143} \<union> {144..287}" by auto
  also have "sum steady_sample ({0..143} \<union> {144..287})
               = sum steady_sample {0..143} + sum steady_sample {144..287}"
    by (rule sum.union_disjoint) auto
  also have "sum steady_sample {144..287} = sum (\<lambda>j. steady_sample (j + 144)) {0..143}"
    by (rule sum.reindex_bij_witness [of _ "\<lambda>j. j + 144" "\<lambda>j. j - 144"]) auto
  also have "sum steady_sample {0..143} + sum (\<lambda>j. steady_sample (j + 144)) {0..143}
               = sum (\<lambda>j. steady_sample j + steady_sample (j + 144)) {0..143}"
    by (simp add: sum.distrib)
  also have "\<dots> = sum (\<lambda>j. 43.7) {0..143::int}"
    by (simp only: steady_pair)
  also have "\<dots> = 6292.8" by simp
  finally show ?thesis .
qed

lemma steady_hour_8:
  assumes "96 \<le> j" "j \<le> 107"
  shows "steady_sample j = 25.875"
proof -
  have "j div 12 = 8" using assms by auto
  then show ?thesis unfolding steady_sample_def by (simp add: sin_30)
qed

lemma steady_hour_12:
  assumes "144 \<le> j" "j \<le> 155"
  shows "steady_sample j = 29.9"
proof -
  have "j div 12 = 12" using assms by auto
  then show ?thesis unfolding steady_sample_def by simp
qed


lemma length_filter_mono:
  assumes "\<forall>x \<in> set xs. P x \<longrightarrow> Q x"
  shows "length (filter P xs) \<le> length (filter Q xs)"
  using assms by (induction xs) auto

lemma sort_nth_lower_bound:
  fixes xs :: "real list"
  assumes few: "length (filter (\<lambda>x. x < X) xs) \<le> k" and k: "k < length xs"
  shows "X \<le> sort xs ! k"
proof (rule ccontr)
  assume "\<not> X \<le> sort xs ! k"
  then have below: "sort xs ! k < X" by simp
  let ?ys = "sort xs"
  have kk: "k < length ?ys" using k by simp
  have "\<forall>y \<in> set (take (Suc k) ?ys). y < X"
  proof
    fix y assume "y \<in> set (take (Suc k) ?ys)"
    then obtain i where i: "i < Suc k" and y: "y = ?ys ! i"
      using kk by (auto simp: in_set_conv_nth)
    have "?ys ! i \<le> ?ys ! k"
      using i kk by (intro sorted_nth_mono) simp_all
    then show "y < X" using below y by simp
  qed
  then have "filter (\<lambda>x. x < X) (take (Suc k) ?ys) = take (Suc k) ?ys"
    by (simp add: filter_id_conv)
  then have "length (filter (\<lambda>x. x < X) (take (Suc k) ?ys)) = Suc k"
    using kk by simp
  moreover have "length (filter (\<lambda>x. x < X) ?ys)
      = length (filter (\<lambda>x. x < X) (take (Suc k) ?ys))
        + length (filter (\<lambda>x. x < X) (drop (Suc k) ?ys))"
    by (metis append_take_drop_id filter_append length_append)
  moreover have "length (filter (\<lambda>x. x < X) ?ys) = length (filter (\<lambda>x. x < X) xs)"
    by (metis mset_filter mset_sort size_mset)
  ultimately show False using few by simp
qed

lemma steady_few_below:
  "length (filter (\<lambda>x. x < 25.875) (map steady_sample [0..287])) \<le> 272"
proof -
  let ?G = "\<lambda>j :: int. 96 \<le> j \<and> j \<le> 107 \<or> 144 \<le> j \<and> j \<le> 155"
  have "length (filter (\<lambda>x. x < 25.875) (map steady_sample [0..287]))
          = length (filter (\<lambda>j. steady_sample j < 25.875) [0..287])"
    by (simp add: filter_map comp_def)
  also have "\<dots> \<le> length (filter (\<lambda>j. \<not> ?G j) [0..287])"
  proof (rule length_filter_mono, intro ballI impI)
    fix j :: int assume "steady_sample j < 25.875"
    then show "\<not> ?G j"
      using steady_hour_8 [of j] steady_hour_12 [of j] by auto
  qed
  also have "\<dots> = 264" by code_simp
  finally show ?thesis by simp
qed

lemma steady_p95: "25.875 \<le> sort (map steady_sample [0..287]) ! 272"
  by (rule sort_nth_lower_bound [OF steady_few_below]) simp

lemma one_day_p95_list:
  assumes "length raw = 288"
  shows "daily_p95_list example_config raw = Inr [sort raw ! 272]"
proof -
  have m: "interval_seconds example_config div 60 \<noteq> 0" by (simp add: example_config_def)
  have ppd: "0 < 24 * 60 div (interval_seconds example_config div 60)"
    by (simp add: example_config_def)
  have n: "nat (24 * 60 div (interval_seconds example_config div 60)) = 288"
    by (simp add: example_config_def)
  have r: "real_of_int (24 * 60 div (interval_seconds example_config div 60)) * 0.5 = 144"
    by (simp add: example_config_def)
  have w: "daily_windows 288 raw = [raw]"
    using assms by (simp add: daily_windows_def)
  show ?thesis
    unfolding daily_p95_list_positive_day [OF m ppd] n r w
    by (simp add: assms py_int_def)
qed

lemma steady_daily_p95_list:
  "daily_p95_list example_config (map steady_sample [0..287])
     = Inr [sort (map steady_sample [0..287]) ! 272]"
  by (rule one_day_p95_list) simp

lemma steady_generate:
  "generate example_config 20 (\<lambda>_. 1/2) 1 300 0
     = Inr (map (\<lambda>bw. bw * (20 / (sort (map steady_sample [0..287]) ! 272)))
              (map steady_sample [0..287]), 576)"
proof -
  define P where "P = sort (map steady_sample [0..287]) ! 272"
  have P: "25.875 \<le> P" unfolding P_def by (rule steady_p95)
  have dev: "0.02 < \<bar>P - 20\<bar> / 20" using P by simp
  have P0: "P \<noteq> 0" using P by simp
  have adj: "adjust_to_target example_config 20 (map steady_sample [0..287])
               = Inr (map (\<lambda>bw. bw * (20 / P)) (map steady_sample [0..287]))"
    unfolding adjust_to_target_def steady_daily_p95_list P_def [symmetric]
    using dev P0 by (simp add: err_bind_def)
  have pts: "sample_points example_config 20 1 300 (\<lambda>_. 1/2) [0..287] 0
               = (map steady_sample [0..287], 576)"
    using sample_points_steady [of "[0..287]" 0] by simp
  show ?thesis
    unfolding generate_def P_def [symmetric]
    by (simp add: Let_def pts adj err_bind_def)
qed

section \<open>Generation followed by validation\<close>

lemma derive_bw:
  "derive cfg d bandwidth_gbps interval p = Inr (m, p') \<Longrightarrow> bw m = py_int (bandwidth_gbps * 1024)"
  unfolding derive_def uniform_def
  apply (simp only: Let_def split_conv split: if_splits prod.splits)
  apply auto
  done

lemma derive_succeeds:
  assumes "interval \<noteq> 0"
    and "fst (avg_object_size_kb cfg) * 1024
         + (snd (avg_object_size_kb cfg) * 1024 - fst (avg_object_size_kb cfg) * 1024) * d (Suc p) \<noteq> 0"
  shows "\<exists>m p'. derive cfg d bandwidth_gbps interval p = Inr (m, p')"
  unfolding derive_def uniform_def
  by (simp only: Let_def split_conv if_not_P [OF assms(2)] if_not_P [OF assms(1)]
      split: prod.splits) blast

lemma inject_bw: "bw (fst (inject cfg tz d m ts p)) = bw m"
proof -
  obtain m1 p1 where s1: "maintenance_window d (local_hour tz ts) (m, p) = (m1, p1)"
    by (cases "maintenance_window d (local_hour tz ts) (m, p)")
  obtain m2 p2 where s2: "origin_outage cfg d (m1, p1) = (m2, p2)"
    by (cases "origin_outage cfg d (m1, p1)")
  obtain m3 p3 where s3: "cache_purge d (m2, p2) = (m3, p3)"
    by (cases "cache_purge d (m2, p2)")
  have "bw (fst (maintenance_window d (local_hour tz ts) (m, p))) = bw m"
    by (simp add: maintenance_window_def random_def uniform_def Let_def)
  moreover have "bw (fst (origin_outage cfg d (m1, p1))) = bw m1"
    by (simp add: origin_outage_def random_def uniform_def Let_def)
  moreover have "bw (fst (cache_purge d (m2, p2))) = bw m2"
    by (simp add: cache_purge_def random_def uniform_def Let_def)
  moreover have "bw (fst (ddos d (m3, p3))) = bw m3"
    by (simp add: ddos_def random_def uniform_def Let_def)
  ultimately show ?thesis by (simp add: inject_def s1 s2 s3)
qed

lemma metrics_items_no_tags: "dom (metrics_items m) \<inter> tag_keys = {}"
  by (simp add: metrics_items_def tag_keys_def)

lemma metrics_items_bw: "metrics_items m ''bw'' = Some (IntV (bw m))"
  by (simp add: metrics_items_def)

lemma distribute_single_steady:
  "\<exists>e. distribute example_config (\<lambda>_. 1/2) (metrics_items m) ts p = Inr ([e], Suc (Suc p)) \<and>
       e ''bw'' = Some (IntV (bw m)) \<and> (\<exists>v. e ''region'' = Some v) \<and> (\<exists>v. e ''domain'' = Some v)"
proof -
  have u: "unit_draws (\<lambda>_. 1/2)" by (simp add: unit_draws_def)
  have dm: "domains example_config \<noteq> []" by (simp add: example_config_def)
  let ?r = "\<lparr> weight = 1, country = ''CN'', region = ''Beijing'' \<rparr>"
  have shape: "distribute example_config (\<lambda>_. 1/2) (metrics_items m) ts p
      = Inr ([log_entry example_config (metrics_items m) ts ?r 1 ''a.example.com''], Suc (Suc p))"
    unfolding distribute_def distribute_regions_shape [OF u dm]
    by (simp add: example_config_def uniform_def py_int_def)
  have b: "log_entry example_config (metrics_items m) ts ?r 1 ''a.example.com'' ''bw''
             = Some (IntV (bw m))"
    using log_entry_int [of "metrics_items m" "''bw''" "bw m" example_config ts ?r 1
        "''a.example.com''"] metrics_items_bw [of m]
    by (simp add: py_int_of_int)
  note t = log_entry_tags [of "metrics_items m" example_config ts ?r 1 "''a.example.com''",
      OF metrics_items_no_tags]
  show ?thesis unfolding shape using b t by blast
qed

lemma generate_logs_steady:
  "\<exists>logs p'. generate_logs example_config tz start (\<lambda>_. 1/2) ibs p = Inr (logs, p') \<and>
     map (\<lambda>e. e ''bw'') logs = map (\<lambda>ib. Some (IntV (py_int (snd ib * 1024)))) ibs \<and>
     (\<forall>e \<in> set logs. \<exists>v. e ''region'' = Some v) \<and>
     (\<forall>e \<in> set logs. \<exists>v. e ''domain'' = Some v)"
proof (induction ibs arbitrary: p)
  case Nil
  show ?case by simp
next
  case (Cons ib ibs)
  obtain i b where ib: "ib = (i, b)" by (cases ib)
  let ?ts = "start + i * interval_seconds example_config * 1000"
  have iv: "interval_seconds example_config \<noteq> 0" by (simp add: example_config_def)
  have av: "fst (avg_object_size_kb example_config) * 1024
         + (snd (avg_object_size_kb example_config) * 1024
            - fst (avg_object_size_kb example_config) * 1024) * (\<lambda>_. 1/2 :: real) (Suc p) \<noteq> 0"
    by (simp add: example_config_def)
  obtain m p1 where d: "derive example_config (\<lambda>_. 1/2) b (interval_seconds example_config) p
                          = Inr (m, p1)"
    using derive_succeeds [OF iv av] by blast
  have bm: "bw m = py_int (b * 1024)" using derive_bw [OF d] .
  obtain m' p2 where inj: "inject example_config tz (\<lambda>_. 1/2) m ?ts p1 = (m', p2)"
    by (cases "inject example_config tz (\<lambda>_. 1/2) m ?ts p1")
  have bm': "bw m' = py_int (b * 1024)"
    using inject_bw [of example_config tz "\<lambda>_. 1/2" m ?ts p1] inj bm by simp
  obtain e where e: "distribute example_config (\<lambda>_. 1/2) (metrics_items m') ?ts p2
                       = Inr ([e], Suc (Suc p2))"
      "e ''bw'' = Some (IntV (bw m'))" "\<exists>v. e ''region'' = Some v" "\<exists>v. e ''domain'' = Some v"
    using distribute_single_steady [of m' ?ts p2] by blast
  obtain logs p' where rest:
      "generate_logs example_config tz start (\<lambda>_. 1/2) ibs (Suc (Suc p2)) = Inr (logs, p')"
      "map (\<lambda>e. e ''bw'') logs = map (\<lambda>ib. Some (IntV (py_int (snd ib * 1024)))) ibs"
      "\<forall>e \<in> set logs. \<exists>v. e ''region'' = Some v"
      "\<forall>e \<in> set logs. \<exists>v. e ''domain'' = Some v"
    using Cons.IH [of "Suc (Suc p2)"] by blast
  have "generate_logs example_config tz start (\<lambda>_. 1/2) (ib # ibs) p = Inr (e # logs, p')"
    unfolding ib by (simp add: Let_def err_bind_def d inj e(1) rest(1))
  then show ?case
    using e(2,3,4) rest(2,3,4) bm' ib by (intro exI [of _ "e # logs"] exI [of _ p']) simp
qed


lemma collect_all_Inr:
  assumes "\<forall>r \<in> set rs. \<exists>v. r = Inr v"
  shows "\<exists>vs. collect rs = Inr vs \<and> length vs = length rs"
  using assms
proof (induction rs)
  case Nil
  show ?case by simp
next
  case (Cons r rs)
  obtain v where v: "r = Inr v" using Cons.prems by auto
  obtain vs where vs: "collect rs = Inr vs" "length vs = length rs"
    using Cons by auto
  show ?case by (simp add: v vs err_bind_def)
qed

lemma collect_bandwidths:
  assumes "map (\<lambda>e. e ''bw'') logs = map (\<lambda>n. Some (IntV n)) ns"
  shows "collect (map (\<lambda>entry. err_bind (log_number entry ''bw'') (\<lambda>b. Inr (b / 1024))) logs)
           = Inr (map (\<lambda>n. real_of_int n / 1024) ns)"
  using assms
proof (induction logs arbitrary: ns)
  case Nil
  then show ?case by simp
next
  case (Cons e logs)
  obtain n ns' where ns: "ns = n # ns'" using Cons.prems by (cases ns) simp_all
  have e: "e ''bw'' = Some (IntV n)" and rest: "map (\<lambda>e. e ''bw'') logs = map (\<lambda>n. Some (IntV n)) ns'"
    using Cons.prems unfolding ns by simp_all
  show ?case
    unfolding ns
    apply (simp only: list.map collect.simps Cons.IH [OF rest])
    apply (simp add: err_bind_def log_number_def e)
    done
qed

lemma collect_keys:
  assumes "\<forall>e \<in> set logs. \<exists>v. e k = Some v"
  shows "\<exists>ks. collect (map (\<lambda>entry. log_key entry k) logs) = Inr ks \<and> length ks = length logs"
proof -
  have "\<forall>r \<in> set (map (\<lambda>entry. log_key entry k) logs). \<exists>v. r = Inr v"
    using assms by (auto simp: log_key_def)
  from collect_all_Inr [OF this] show ?thesis by simp
qed

lemma group_stats_succeeds: "\<exists>gs. group_stats kvs = Inr gs"
proof -
  have "\<forall>r \<in> set (map (\<lambda>(k, bws). err_bind (calculate_p95 bws) (\<lambda>r. Inr (k, r))) (grouped kvs)).
          \<exists>v. r = Inr v"
  proof
    fix r assume "r \<in> set (map (\<lambda>(k, bws). err_bind (calculate_p95 bws) (\<lambda>r. Inr (k, r))) (grouped kvs))"
    then obtain k where k: "k \<in> set (map fst kvs)"
      and r: "r = err_bind (calculate_p95 (map snd (filter (\<lambda>kv. fst kv = k) kvs))) (\<lambda>r. Inr (k, r))"
      by (auto simp: grouped_def)
    obtain kv where "kv \<in> set kvs" "fst kv = k" using k by auto
    then have "filter (\<lambda>kv. fst kv = k) kvs \<noteq> []" by (auto simp: filter_empty_conv)
    then have "map snd (filter (\<lambda>kv. fst kv = k) kvs) \<noteq> []" by simp
    from calculate_p95_nonempty [OF this] show "\<exists>v. r = Inr v"
      unfolding r by (auto simp: err_bind_def)
  qed
  from collect_all_Inr [OF this] show ?thesis unfolding group_stats_def by blast
qed

lemma calculate_p95_avg:
  assumes "values \<noteq> []"
  shows "\<exists>s. calculate_p95 values = Inr (Stats s) \<and>
             avg s = sum_list values / real (length values)"
proof -
  let ?n = "int (length values)"
  have n: "0 < ?n" using assms by simp
  have ne: "sort values \<noteq> []" using assms by (metis length_sort length_0_conv)
  note i95 = idx95 [OF n] and i99 = idx99 [OF n]
  have i50: "0 \<le> ?n div 2" "?n div 2 < ?n" using n by linarith+
  have sm: "sum_list (sort values) = sum_list values"
    by (metis mset_sort sum_mset_sum_list)
  show ?thesis
    using i95 i99 i50 n assms
    by (simp add: calculate_p95_def Let_def err_bind_def py_index_in_range
        py_index_last [OF ne] sm)
qed

lemma validate_logs_report:
  assumes bw: "map (\<lambda>e. e ''bw'') logs = map (\<lambda>n. Some (IntV n)) ns"
    and rg: "\<forall>e \<in> set logs. \<exists>v. e ''region'' = Some v"
    and dm: "\<forall>e \<in> set logs. \<exists>v. e ''domain'' = Some v"
    and ne: "ns \<noteq> []" and t: "target \<noteq> 0"
  shows "\<exists>report. validate_logs logs target = Inr report \<and>
           deviation_percent (validation report)
             = \<bar>sum_list (map (\<lambda>n. real_of_int n / 1024) ns) / real (length ns) - target\<bar>
               / target * 100 \<and>
           passed (validation report) = (deviation_percent (validation report) < 5)"
proof -
  let ?bws = "map (\<lambda>n. real_of_int n / 1024) ns"
  obtain rks where rks: "collect (map (\<lambda>entry. log_key entry ''region'') logs) = Inr rks"
    using collect_keys [OF rg] by blast
  obtain dks where dks: "collect (map (\<lambda>entry. log_key entry ''domain'') logs) = Inr dks"
    using collect_keys [OF dm] by blast
  have "?bws \<noteq> []" using ne by simp
  from calculate_p95_avg [OF this]
  obtain st where st: "calculate_p95 ?bws = Inr (Stats st)"
      "avg st = sum_list ?bws / real (length ns)"
    by auto
  obtain rs where rs: "group_stats (zip rks ?bws) = Inr rs"
    using group_stats_succeeds by blast
  obtain ds where ds: "group_stats (zip dks ?bws) = Inr ds"
    using group_stats_succeeds by blast
  show ?thesis
    unfolding validate_logs_def collect_bandwidths [OF bw] rks dks
    using t by (simp add: err_bind_def st rs ds Let_def)
qed


lemma py_int_le_self: "0 \<le> x \<Longrightarrow> real_of_int (py_int x) \<le> x"
  by (simp add: py_int_def)

lemma truncated_sum_le:
  assumes "\<forall>b \<in> set curve. 0 \<le> b"
  shows "sum_list (map (\<lambda>n. real_of_int n / 1024) (map (\<lambda>b. py_int (b * 1024)) curve))
           \<le> sum_list curve"
  using assms
proof (induction curve)
  case Nil
  show ?case by simp
next
  case (Cons b curve)
  have "0 \<le> b * 1024" using Cons.prems by simp
  then have "real_of_int (py_int (b * 1024)) \<le> b * 1024" by (rule py_int_le_self)
  then have "real_of_int (py_int (b * 1024)) / 1024 \<le> b" by simp
  moreover have "sum_list (map (\<lambda>n. real_of_int n / 1024) (map (\<lambda>b. py_int (b * 1024)) curve))
           \<le> sum_list curve"
    using Cons by simp
  ultimately show ?case by simp
qed

text \<open>
  C2, at a failing input.  Target 20 Gbps, one day, 300 s, one region of weight 1, every
  draw \<open>1/2\<close> (noise 1, no burst, no anomaly, jitter 1).  The calibration scales the 288
  samples so that their p95 is 20, which leaves their sum at most 5472, a mean of at most
  19 Gbps.  Every log entry carries \<open>int(bw * 1024)\<close> Mbps, and \<open>validate_logs\<close> compares
  the mean of the entries with the target: the deviation is at least 5% and \<open>passed\<close> is
  false.
\<close>

theorem round_trip_fails:
  "\<exists>logs stats p' report.
     generate_full_month example_config utc_offset start_ms (\<lambda>_. 1/2) 0 = Inr ((logs, stats), p') \<and>
     validate_logs logs 20 = Inr report \<and>
     5 \<le> deviation_percent (validation report) \<and>
     \<not> passed (validation report)"
proof -
  define raw where "raw = map steady_sample [0..287]"
  define P where "P = sort raw ! 272"
  define c where "c = 20 / P"
  define curve where "curve = map (\<lambda>bw. bw * c) raw"
  have P: "25.875 \<le> P" unfolding P_def raw_def by (rule steady_p95)
  have c0: "0 < c" unfolding c_def using P by simp
  have "c * P = 20" unfolding c_def using P by simp
  then have "c * 25.875 \<le> 20" using P c0 by (metis mult_left_mono less_imp_le)
  then have cle: "c \<le> 20 / 25.875" by (simp add: pos_le_divide_eq)
  have len_raw: "length raw = 288" unfolding raw_def by (simp only: length_map length_upto)
  have len: "length curve = 288" unfolding curve_def using len_raw by simp
  have sum_raw: "sum_list raw = 6292.8" unfolding raw_def by (rule steady_sum)
  have "sum_list curve = sum_list raw * c" unfolding curve_def by (rule sum_list_scale)
  also have "\<dots> \<le> 6292.8 * (20 / 25.875)" unfolding sum_raw using cle by simp
  also have "\<dots> \<le> 5472" by simp
  finally have sum_curve: "sum_list curve \<le> 5472" .
  have pos: "\<forall>b \<in> set curve. 0 \<le> b"
  proof
    fix b assume "b \<in> set curve"
    then obtain j where "b = steady_sample j * c" unfolding curve_def raw_def by auto
    moreover have "0 \<le> steady_sample j" using steady_sample_floor [of j] by simp
    ultimately show "0 \<le> b" using c0 by simp
  qed
  have g: "generate example_config (target_bandwidth_gbps example_config) (\<lambda>_. 1/2)
             (duration_days example_config) (interval_seconds example_config) 0
           = Inr (curve, 576)"
  proof -
    have f: "target_bandwidth_gbps example_config = 20" "duration_days example_config = 1"
        "interval_seconds example_config = 300"
      by (simp_all add: example_config_def)
    show ?thesis
      unfolding f curve_def c_def P_def raw_def by (rule steady_generate)
  qed
  have "curve \<noteq> []" using len by auto
  then obtain st where st: "summary_stats curve (interval_seconds example_config) = Inr st"
    using summary_stats_nonempty by blast
  let ?ibs = "zip (map int [0..<length curve]) curve"
  obtain logs p' where logs:
      "generate_logs example_config utc_offset start_ms (\<lambda>_. 1/2) ?ibs 576 = Inr (logs, p')"
      "map (\<lambda>e. e ''bw'') logs = map (\<lambda>ib. Some (IntV (py_int (snd ib * 1024)))) ?ibs"
      "\<forall>e \<in> set logs. \<exists>v. e ''region'' = Some v"
      "\<forall>e \<in> set logs. \<exists>v. e ''domain'' = Some v"
    using generate_logs_steady [of utc_offset start_ms ?ibs 576] by blast
  define ns where "ns = map (\<lambda>b. py_int (b * 1024)) curve"
  have "map snd ?ibs = curve" by (simp add: map_snd_zip)
  then have "map (\<lambda>ib. Some (IntV (py_int (snd ib * 1024)))) ?ibs
               = map (\<lambda>b. Some (IntV (py_int (b * 1024)))) curve"
    by (metis (no_types, lifting) map_map comp_def map_eq_conv)
  then have bw: "map (\<lambda>e. e ''bw'') logs = map (\<lambda>n. Some (IntV n)) ns"
    unfolding ns_def using logs(2) by (simp add: comp_def)
  have nne: "ns \<noteq> []" and nlen: "length ns = 288" unfolding ns_def using len by auto
  have month: "generate_full_month example_config utc_offset start_ms (\<lambda>_. 1/2) 0
                 = Inr ((logs, st), p')"
    unfolding generate_full_month_def by (simp add: g st logs(1) err_bind_def)
  obtain report where report: "validate_logs logs 20 = Inr report"
      "deviation_percent (validation report)
         = \<bar>sum_list (map (\<lambda>n. real_of_int n / 1024) ns) / real (length ns) - 20\<bar> / 20 * 100"
      "passed (validation report) = (deviation_percent (validation report) < 5)"
    using validate_logs_report [OF bw logs(3,4) nne, of 20] by auto
  have "sum_list (map (\<lambda>n. real_of_int n / 1024) ns) \<le> sum_list curve"
    unfolding ns_def by (rule truncated_sum_le [OF pos])
  then have "sum_list (map (\<lambda>n. real_of_int n / 1024) ns) \<le> 5472" using sum_curve by simp
  then have "sum_list (map (\<lambda>n. real_of_int n / 1024) ns) / real (length ns) \<le> 19"
    unfolding nlen by simp
  moreover have "\<And>a :: real. a \<le> 19 \<Longrightarrow> 5 \<le> \<bar>a - 20\<bar> / 20 * 100" by simp
  ultimately have dev: "5 \<le> deviation_percent (validation report)"
    unfolding report(2) by blast
  then have "\<not> passed (validation report)" unfolding report(3) by simp
  then show ?thesis using month report(1) dev by blast
qed

end
